theory Spec2Isabelle
  imports Complex_Main
begin

section \<open>Data model of the consensus package\<close>

text \<open>
  The development embeds \<^verbatim>\<open>consensus/blocks.go\<close>. Hashes (block ids, output ids,
  addresses, merkle roots) are natural numbers, the all-zero hash being \<open>0\<close>. A
  \<^verbatim>\<open>Timestamp\<close> is a signed 64-bit integer, kept as an \<open>int\<close> with the
  wrap-around written out where the code computes with it; a \<^verbatim>\<open>BlockHeight\<close> is an
  unsigned 64-bit integer kept as a \<open>nat\<close>. A \<^verbatim>\<open>Target\<close> is a 256-bit threshold
  read as a natural number. A \<^verbatim>\<open>Currency\<close> is an unsigned 64-bit integer kept as a
  \<open>nat\<close> with additions taken modulo \<open>2 ^ 64\<close>.
\<close>

type_synonym BlockID = nat
type_synonym OutputID = nat
type_synonym CoinAddress = nat
type_synonym Hash = nat
type_synonym Timestamp = int
type_synonym BlockHeight = nat
type_synonym Target = nat
type_synonym Currency = nat

datatype error =
    BlockKnownErr
  | FutureBlockErr
  | KnownOrphanErr
  | UnknownOrphanErr
  | ErrorString string

datatype panic =
    PanicString string
  | PanicError error
  | NilDereference
  | IndexOutOfRange
  | DivisionByZero

record Transaction =
  MinerFees :: "Currency list"
  TxnBody :: nat

record Output =
  Value :: Currency
  SpendHash :: CoinAddress

record OutputDiff =
  New :: bool
  ID :: OutputID
  Output :: Output

record TransactionDiff =
  td_OutputDiffs :: "OutputDiff list"
  td_ContractDiffs :: "nat list"

record BlockChanges =
  bc_OutputDiffs :: "OutputDiff list"
  bc_ContractDiffs :: "nat list"

record BlockDiff =
  CatalystBlock :: BlockID
  TransactionDiffs :: "TransactionDiff list"
  BlockChanges :: BlockChanges

record ConsensusChange =
  InvertedBlocks :: "BlockDiff list"
  AppliedBlocks :: "BlockDiff list"

record Block =
  ParentBlockID :: BlockID
  Timestamp :: Timestamp
  Nonce :: nat
  MinerAddress :: CoinAddress
  MerkleRoot :: Hash
  Transactions :: "Transaction list"

text \<open>
  A \<^verbatim>\<open>*BlockNode\<close> is an address into the store \<open>nodes\<close> of the state; the
  \<^verbatim>\<open>Children\<close> of a node and the values of \<^verbatim>\<open>blockMap\<close> are such addresses, so a
  node stays reachable from its parent after \<^verbatim>\<open>delete(s.blockMap, id)\<close>.
\<close>

record BlockNode =
  Block :: Block
  Children :: "nat list"
  Height :: BlockHeight
  Depth :: Target
  Target :: Target
  RecentTimestamps :: "Timestamp list"
  BlockDiff :: BlockDiff

record ('c, 'p) State =
  blockRoot :: nat
  badBlocks :: "BlockID set"
  blockMap :: "BlockID \<rightharpoonup> nat"
  nodes :: "BlockNode list"
  missingParents :: "BlockID \<rightharpoonup> (BlockID \<rightharpoonup> Block)"
  currentBlockID :: BlockID
  currentPath :: "BlockHeight \<rightharpoonup> BlockID"
  unspentOutputs :: "OutputID \<rightharpoonup> Output"
  openContracts :: 'c
  transactionPool :: 'p
  futureBlocks :: "(Timestamp \<times> Block) list"
  subscriptions :: "ConsensusChange list list"

text \<open>
  The constants, the methods of \<^verbatim>\<open>Block\<close> and \<^verbatim>\<open>Target\<close> and the transaction
  layer are declared in other files of the package; they are parameters of the model.
  The transaction layer reads and writes the unspent outputs and the contract state.
\<close>

record ('c, 'p) Env =
  DEBUG :: bool
  FutureThreshold :: Timestamp
  TargetWindow :: BlockHeight
  BlockFrequency :: Timestamp
  MaxAdjustmentUp :: rat
  MaxAdjustmentDown :: rat
  BlockSizeLimit :: nat
  Block_ID :: "Block \<Rightarrow> BlockID"
  SubsidyID :: "Block \<Rightarrow> OutputID"
  CheckTarget :: "Block \<Rightarrow> Target \<Rightarrow> bool"
  TransactionMerkleRoot :: "Block \<Rightarrow> Hash"
  MarshalLen :: "Block \<Rightarrow> nat"
  RatToTarget :: "rat \<Rightarrow> Target"
  CalculateCoinbase :: "BlockHeight \<Rightarrow> Currency"
  ValidTransaction :: "(OutputID \<rightharpoonup> Output) \<Rightarrow> 'c \<Rightarrow> Transaction \<Rightarrow> error option"
  applyTransaction ::
    "(OutputID \<rightharpoonup> Output) \<Rightarrow> 'c \<Rightarrow> Transaction
      \<Rightarrow> (OutputID \<rightharpoonup> Output) \<times> 'c \<times> TransactionDiff"
  invertTransaction ::
    "(OutputID \<rightharpoonup> Output) \<Rightarrow> 'c \<Rightarrow> Transaction
      \<Rightarrow> (OutputID \<rightharpoonup> Output) \<times> 'c \<times> OutputDiff list"
  applyContractMaintenance ::
    "(OutputID \<rightharpoonup> Output) \<Rightarrow> 'c \<Rightarrow> BlockChanges
      \<Rightarrow> (OutputID \<rightharpoonup> Output) \<times> 'c \<times> BlockChanges \<times> OutputDiff list"
  invertContractMaintenance ::
    "(OutputID \<rightharpoonup> Output) \<Rightarrow> 'c
      \<Rightarrow> (OutputID \<rightharpoonup> Output) \<times> 'c \<times> OutputDiff list"
  cleanTransactionPool :: "(OutputID \<rightharpoonup> Output) \<Rightarrow> 'c \<Rightarrow> 'p \<Rightarrow> 'p"
  StateHash ::
    "(OutputID \<rightharpoonup> Output) \<Rightarrow> 'c \<Rightarrow> (BlockHeight \<rightharpoonup> BlockID) \<Rightarrow> BlockID \<Rightarrow> Hash"
  CurrentPathCheck ::
    "(BlockHeight \<rightharpoonup> BlockID) \<Rightarrow> BlockID \<Rightarrow> (BlockID \<rightharpoonup> nat) \<Rightarrow> BlockNode list \<Rightarrow> bool"

definition SurpassThreshold :: rat where
  "SurpassThreshold = Fract 5 100"

definition MedianTimestampWindow :: nat where
  "MedianTimestampWindow = 11"

definition int64 :: "int \<Rightarrow> int" where
  "int64 x = (x + 2 ^ 63) mod 2 ^ 64 - 2 ^ 63"

definition uint64 :: "nat \<Rightarrow> nat" where
  "uint64 x = x mod 2 ^ 64"

definition zeroBlockDiff :: BlockDiff where
  "zeroBlockDiff =
     \<lparr>CatalystBlock = 0, TransactionDiffs = [],
      BlockChanges = \<lparr>bc_OutputDiffs = [], bc_ContractDiffs = []\<rparr>\<rparr>"

definition zeroConsensusChange :: ConsensusChange where
  "zeroConsensusChange = \<lparr>InvertedBlocks = [], AppliedBlocks = []\<rparr>"


section \<open>Accessors of the state\<close>

text \<open>
  Modelled from the spec: the accessors \<^verbatim>\<open>currentBlockNode\<close>, \<^verbatim>\<open>CurrentBlock\<close>,
  \<^verbatim>\<open>Height\<close>, \<^verbatim>\<open>Depth\<close>, \<^verbatim>\<open>CurrentBlockWeight\<close>, \<^verbatim>\<open>Output\<close> and
  \<^verbatim>\<open>BlockAtHeight\<close> are declared in another file of the package. They read the tip of
  the canonical chain (the node of \<open>currentBlockID\<close>), the unspent outputs and the
  canonical path. A map lookup of a missing block id yields the nil pointer, and reading
  a field through it panics.
\<close>

definition nodeAt :: "('c, 'p) State \<Rightarrow> nat \<Rightarrow> panic + BlockNode" where
  "nodeAt s a = (if a < length (nodes s) then Inr (nodes s ! a) else Inl NilDereference)"

definition lookupNode :: "('c, 'p) State \<Rightarrow> BlockID \<Rightarrow> panic + BlockNode" where
  "lookupNode s bid =
     (case blockMap s bid of None \<Rightarrow> Inl NilDereference | Some a \<Rightarrow> nodeAt s a)"

definition currentBlockNode :: "('c, 'p) State \<Rightarrow> panic + BlockNode" where
  "currentBlockNode s = lookupNode s (currentBlockID s)"

definition CurrentBlock :: "('c, 'p) State \<Rightarrow> panic + Block" where
  "CurrentBlock s = (case currentBlockNode s of Inl p \<Rightarrow> Inl p | Inr n \<Rightarrow> Inr (Block n))"

definition StateHeight :: "('c, 'p) State \<Rightarrow> panic + BlockHeight" where
  "StateHeight s = (case currentBlockNode s of Inl p \<Rightarrow> Inl p | Inr n \<Rightarrow> Inr (Height n))"

definition StateDepth :: "('c, 'p) State \<Rightarrow> panic + Target" where
  "StateDepth s = (case currentBlockNode s of Inl p \<Rightarrow> Inl p | Inr n \<Rightarrow> Inr (Depth n))"

text \<open>
  Modelled from the spec: \<^verbatim>\<open>Target.Rat\<close> and \<^verbatim>\<open>Target.Inverse\<close> are declared in
  another file. The target is viewed as a rational; its inverse is the work of a block.
  \<^verbatim>\<open>big.Rat\<close> panics on the inverse of zero.
\<close>

definition TargetRat :: "Target \<Rightarrow> rat" where
  "TargetRat t = of_nat t"

definition Inverse :: "Target \<Rightarrow> panic + rat" where
  "Inverse t = (if t = 0 then Inl DivisionByZero else Inr (1 / TargetRat t))"

definition CurrentBlockWeight :: "('c, 'p) State \<Rightarrow> panic + rat" where
  "CurrentBlockWeight s =
     (case currentBlockNode s of Inl p \<Rightarrow> Inl p | Inr n \<Rightarrow> Inverse (Target n))"

definition StateOutput :: "('c, 'p) State \<Rightarrow> OutputID \<Rightarrow> error + Output" where
  "StateOutput s oid =
     (case unspentOutputs s oid of
        None \<Rightarrow> Inl (ErrorString ''output not in unspent outputs'')
      | Some out \<Rightarrow> Inr out)"

definition BlockAtHeight :: "('c, 'p) State \<Rightarrow> BlockHeight \<Rightarrow> error + Block" where
  "BlockAtHeight s h =
     (case currentPath s h of
        None \<Rightarrow> Inl (ErrorString ''no block at height found'')
      | Some bid \<Rightarrow>
          (case lookupNode s bid of
             Inl p \<Rightarrow> Inl (ErrorString ''no block at height found'')
           | Inr n \<Rightarrow> Inr (Block n)))"

text \<open>
  Modelled from the spec: \<^verbatim>\<open>notifySubscribers\<close> is declared in another file; it
  publishes the change to every subscriber, in order. A subscriber is the sequence of
  changes it has received.
\<close>

definition notifySubscribers ::
  "('c, 'p) State \<Rightarrow> ConsensusChange \<Rightarrow> ('c, 'p) State" where
  "notifySubscribers s cc = s\<lparr>subscriptions := map (\<lambda>ch. ch @ [cc]) (subscriptions s)\<rparr>"

section \<open>Timestamps and the orphan pool\<close>

text \<open>
  \<^verbatim>\<open>earliestChildTimestamp\<close>: the timestamps are sorted as \<^verbatim>\<open>int\<close>s and the entry
  at index \<^verbatim>\<open>MedianTimestampWindow/2\<close> is returned. \<^verbatim>\<open>RecentTimestamps\<close> is an array
  of \<^verbatim>\<open>MedianTimestampWindow\<close> entries; on a list that is too short the index is out
  of range.
\<close>

definition earliestChildTimestamp :: "BlockNode \<Rightarrow> panic + Timestamp" where
  "earliestChildTimestamp bn =
     (let intTimestamps = sort (RecentTimestamps bn) in
      if MedianTimestampWindow div 2 < length intTimestamps
      then Inr (intTimestamps ! (MedianTimestampWindow div 2))
      else Inl IndexOutOfRange)"

definition handleOrphanBlock ::
  "('c, 'p) Env \<Rightarrow> ('c, 'p) State \<Rightarrow> Block \<Rightarrow> panic + (('c, 'p) State \<times> error option)" where
  "handleOrphanBlock K s b =
     (if DEBUG K \<and> blockMap s (ParentBlockID b) \<noteq> None
      then Inl (PanicString ''Incorrect use of handleOrphanBlock'')
      else
        (case missingParents s (ParentBlockID b) of
           None \<Rightarrow>
             Inr (s\<lparr>missingParents :=
                      (missingParents s)(ParentBlockID b \<mapsto> Map.empty(Block_ID K b \<mapsto> b))\<rparr>,
                  Some UnknownOrphanErr)
         | Some missingParent \<Rightarrow>
             (case missingParent (Block_ID K b) of
                Some known \<Rightarrow> Inr (s, Some KnownOrphanErr)
              | None \<Rightarrow>
                  Inr (s\<lparr>missingParents :=
                           (missingParents s)(ParentBlockID b \<mapsto>
                              missingParent(Block_ID K b \<mapsto> b))\<rparr>,
                       Some UnknownOrphanErr))))"

definition checkDestiny ::
  "('c, 'p) Env \<Rightarrow> ('c, 'p) State \<Rightarrow> Block \<Rightarrow> panic + (('c, 'p) State \<times> error option)" where
  "checkDestiny K s b =
     (if Block_ID K b \<in> badBlocks s
      then Inr (s, Some (ErrorString ''block is known to be invalid''))
      else if blockMap s (Block_ID K b) \<noteq> None
      then Inr (s, Some BlockKnownErr)
      else if blockMap s (ParentBlockID b) = None
      then handleOrphanBlock K s b
      else Inr (s, None))"

section \<open>Header validation\<close>

text \<open>
  \<^verbatim>\<open>validateHeader\<close>: \<open>now\<close> is the reading of \<^verbatim>\<open>time.Now().Unix()\<close>. The goroutine
  that sleeps and resubmits a future block is recorded in \<open>futureBlocks\<close> with its delay.
\<close>

definition validateHeader ::
  "('c, 'p) Env \<Rightarrow> Timestamp \<Rightarrow> ('c, 'p) State \<Rightarrow> BlockNode \<Rightarrow> Block
    \<Rightarrow> panic + (('c, 'p) State \<times> error option)" where
  "validateHeader K now s parent b =
     (if \<not> CheckTarget K b (Target parent)
      then Inr (s, Some (ErrorString ''block does not meet target''))
      else
        (let skew = int64 (Timestamp b - now) in
         if skew > FutureThreshold K
         then Inr (s\<lparr>futureBlocks :=
                      futureBlocks s @ [(int64 (skew - FutureThreshold K), b)]\<rparr>,
                   Some FutureBlockErr)
         else
           (case earliestChildTimestamp parent of
              Inl p \<Rightarrow> Inl p
            | Inr earliest \<Rightarrow>
                if earliest > Timestamp b
                then Inr (s\<lparr>badBlocks := insert (Block_ID K b) (badBlocks s)\<rparr>,
                          Some (ErrorString ''timestamp invalid for being in the past''))
                else if MerkleRoot b \<noteq> TransactionMerkleRoot K b
                then Inr (s\<lparr>badBlocks := insert (Block_ID K b) (badBlocks s)\<rparr>,
                          Some (ErrorString ''merkle root does not match transactions sent.''))
                else Inr (s, None))))"

section \<open>Difficulty and weight\<close>

text \<open>\<^verbatim>\<open>big.Rat.Cmp\<close>: \<open>-1\<close>, \<open>0\<close> or \<open>1\<close>.\<close>

definition Cmp :: "rat \<Rightarrow> rat \<Rightarrow> int" where
  "Cmp x y = (if x < y then - 1 else if x = y then 0 else 1)"

text \<open>
  \<^verbatim>\<open>childTarget\<close>: \<open>rootNode\<close> is the node \<^verbatim>\<open>s.blockRoot\<close> points to. \<^verbatim>\<open>big.NewRat\<close> panics on a zero
  denominator.
\<close>

definition childTarget ::
  "('c, 'p) Env \<Rightarrow> ('c, 'p) State \<Rightarrow> BlockNode \<Rightarrow> BlockNode \<Rightarrow> panic + Target" where
  "childTarget K s parentNode newNode =
     (case
        (if Height newNode < TargetWindow K
         then
           (case nodeAt s (blockRoot s) of
              Inl p \<Rightarrow> Inl p
            | Inr rootNode \<Rightarrow>
                Inr (int64 (Timestamp (Block newNode) - Timestamp (Block rootNode)),
                     int64 (BlockFrequency K * int64 (int (Height newNode)))))
         else
           (case BlockAtHeight s (Height newNode - TargetWindow K) of
              Inl err \<Rightarrow> Inl (PanicError err)
            | Inr adjustmentBlock \<Rightarrow>
                Inr (int64 (Timestamp (Block newNode) - Timestamp adjustmentBlock),
                     int64 (BlockFrequency K * int64 (int (TargetWindow K))))))
      of
        Inl p \<Rightarrow> Inl p
      | Inr (timePassed, expectedTimePassed) \<Rightarrow>
          if expectedTimePassed = 0 then Inl DivisionByZero
          else
            (let targetAdjustment = Fract timePassed expectedTimePassed;
                 targetAdjustment' =
                   (if Cmp targetAdjustment (MaxAdjustmentUp K) = 1 then MaxAdjustmentUp K
                    else if Cmp targetAdjustment (MaxAdjustmentDown K) = - 1
                    then MaxAdjustmentDown K
                    else targetAdjustment);
                 newTarget = TargetRat (Target parentNode) * targetAdjustment'
             in Inr (RatToTarget K newTarget)))"

definition childDepth :: "('c, 'p) Env \<Rightarrow> BlockNode \<Rightarrow> panic + Target" where
  "childDepth K parentNode =
     (case Inverse (Target parentNode) of
        Inl p \<Rightarrow> Inl p
      | Inr w \<Rightarrow>
          (case Inverse (Depth parentNode) of
             Inl p \<Rightarrow> Inl p
           | Inr d \<Rightarrow>
               (let cumulativeDifficulty = w + d in
                if cumulativeDifficulty = 0 then Inl DivisionByZero
                else Inr (RatToTarget K (1 / cumulativeDifficulty)))))"

definition heavierFork :: "('c, 'p) State \<Rightarrow> BlockNode \<Rightarrow> panic + bool" where
  "heavierFork s newNode =
     (case CurrentBlockWeight s of
        Inl p \<Rightarrow> Inl p
      | Inr weight \<Rightarrow>
          (let threshold = weight * SurpassThreshold in
           case StateDepth s of
             Inl p \<Rightarrow> Inl p
           | Inr depth \<Rightarrow>
               (case Inverse depth of
                  Inl p \<Rightarrow> Inl p
                | Inr currentCumDiff \<Rightarrow>
                    (let requiredCumDiff = currentCumDiff + threshold in
                     case Inverse (Depth newNode) of
                       Inl p \<Rightarrow> Inl p
                     | Inr newNodeCumDiff \<Rightarrow> Inr (Cmp newNodeCumDiff requiredCumDiff = 1)))))"


section \<open>Tree insertion\<close>

text \<open>
  \<^verbatim>\<open>copy(dst, src)\<close> overwrites the first \<open>min (len dst) (len src)\<close> entries of
  \<open>dst\<close>.
\<close>

definition copy_slice :: "'a list \<Rightarrow> 'a list \<Rightarrow> 'a list" where
  "copy_slice dst src =
     take (min (length dst) (length src)) src @ drop (min (length dst) (length src)) dst"

definition zeroBlock :: Block where
  "zeroBlock =
     \<lparr>ParentBlockID = 0, Timestamp = 0, Nonce = 0, MinerAddress = 0, MerkleRoot = 0,
      Transactions = []\<rparr>"

definition zeroBlockNode :: BlockNode where
  "zeroBlockNode =
     \<lparr>Block = zeroBlock, Children = [], Height = 0, Depth = 0, Target = 0,
      RecentTimestamps = replicate MedianTimestampWindow 0, BlockDiff = zeroBlockDiff\<rparr>"

text \<open>
  \<^verbatim>\<open>addBlockToTree\<close>: \<open>pa\<close> is the pointer \<^verbatim>\<open>parentNode\<close>; the new node is
  allocated at the end of the store and its address is returned.
\<close>

definition addBlockToTree ::
  "('c, 'p) Env \<Rightarrow> ('c, 'p) State \<Rightarrow> nat \<Rightarrow> Block \<Rightarrow> panic + (('c, 'p) State \<times> nat)" where
  "addBlockToTree K s pa b =
     (case nodeAt s pa of
        Inl p \<Rightarrow> Inl p
      | Inr parentNode \<Rightarrow>
          (let newNode0 = zeroBlockNode\<lparr>Block := b, Height := uint64 (Height parentNode + 1)\<rparr>;
               stamps = copy_slice (RecentTimestamps newNode0)
                          (drop 1 (RecentTimestamps parentNode))
           in if \<not> 10 < length stamps then Inl IndexOutOfRange
              else
                (let newNode1 = newNode0\<lparr>RecentTimestamps := stamps[10 := Timestamp b]\<rparr> in
                 case childTarget K s parentNode newNode1 of
                   Inl p \<Rightarrow> Inl p
                 | Inr target \<Rightarrow>
                     (case childDepth K parentNode of
                        Inl p \<Rightarrow> Inl p
                      | Inr depth \<Rightarrow>
                          (let newNode = newNode1\<lparr>Target := target, Depth := depth\<rparr>;
                               na = length (nodes s);
                               s1 = s\<lparr>nodes := nodes s @ [newNode],
                                      blockMap := (blockMap s)(Block_ID K b \<mapsto> na)\<rparr>;
                               s2 = s1\<lparr>nodes := (nodes s1)
                                      [pa := parentNode\<lparr>Children := Children parentNode @ [na]\<rparr>]\<rparr>
                           in Inr (s2, na))))))"

section \<open>The ledger mutator\<close>

text \<open>
  The loop of \<^verbatim>\<open>integrateBlock\<close> over the transactions of the block. It stops at the
  first transaction that \<^verbatim>\<open>ValidTransaction\<close> rejects and returns that error with the
  transactions applied so far, the output diffs and transaction diffs accumulated so far
  and the miner fees collected so far.
\<close>

fun applyTransactions ::
  "('c, 'p) Env \<Rightarrow> ('c, 'p) State \<Rightarrow> Transaction list \<Rightarrow> Transaction list
    \<Rightarrow> OutputDiff list \<Rightarrow> TransactionDiff list \<Rightarrow> Currency
    \<Rightarrow> ('c, 'p) State \<times> Transaction list \<times> OutputDiff list \<times> TransactionDiff list
        \<times> Currency \<times> error option" where
  "applyTransactions K s [] appliedTransactions outDiffs tds minerSubsidy =
     (s, appliedTransactions, outDiffs, tds, minerSubsidy, None)"
| "applyTransactions K s (txn # txns) appliedTransactions outDiffs tds minerSubsidy =
     (case ValidTransaction K (unspentOutputs s) (openContracts s) txn of
        Some err \<Rightarrow> (s, appliedTransactions, outDiffs, tds, minerSubsidy, Some err)
      | None \<Rightarrow>
          (case applyTransaction K (unspentOutputs s) (openContracts s) txn of
             (u, c, transactionDiff) \<Rightarrow>
               applyTransactions K (s\<lparr>unspentOutputs := u, openContracts := c\<rparr>) txns
                 (appliedTransactions @ [txn])
                 (outDiffs @ td_OutputDiffs transactionDiff)
                 (tds @ [transactionDiff])
                 (fold (\<lambda>fee acc. uint64 (acc + fee)) (MinerFees txn) minerSubsidy)))"

text \<open>
  \<^verbatim>\<open>invertTransaction\<close> over a list of transactions, in the order of the list,
  appending the diffs of each to \<open>outDiffs\<close>. Both callers pass the transactions in
  reverse order of application.
\<close>

fun invertTransactions ::
  "('c, 'p) Env \<Rightarrow> ('c, 'p) State \<Rightarrow> Transaction list \<Rightarrow> OutputDiff list
    \<Rightarrow> ('c, 'p) State \<times> OutputDiff list" where
  "invertTransactions K s [] outDiffs = (s, outDiffs)"
| "invertTransactions K s (txn # txns) outDiffs =
     (case invertTransaction K (unspentOutputs s) (openContracts s) txn of
        (u, c, diffSet) \<Rightarrow>
          invertTransactions K (s\<lparr>unspentOutputs := u, openContracts := c\<rparr>) txns
            (outDiffs @ diffSet))"

definition integrateBlock ::
  "('c, 'p) Env \<Rightarrow> ('c, 'p) State \<Rightarrow> Block \<Rightarrow> BlockDiff
    \<Rightarrow> panic + (('c, 'p) State \<times> BlockDiff \<times> OutputDiff list \<times> error option)" where
  "integrateBlock K s b bd0 =
     (let bd1 = bd0\<lparr>CatalystBlock := Block_ID K b\<rparr> in
      case applyTransactions K s (Transactions b) [] [] (TransactionDiffs bd1) 0 of
        (s1, appliedTransactions, outDiffs, tds, minerSubsidy, err) \<Rightarrow>
          (let bd2 = bd1\<lparr>TransactionDiffs := tds\<rparr> in
           case err of
             Some e \<Rightarrow>
               Inr (fst (invertTransactions K s1 (rev appliedTransactions) []), bd2, outDiffs,
                    Some e)
           | None \<Rightarrow>
               (case applyContractMaintenance K (unspentOutputs s1) (openContracts s1)
                       (BlockChanges bd2) of
                  (u, c, changes, diffSet) \<Rightarrow>
                    (let s2 = s1\<lparr>unspentOutputs := u, openContracts := c\<rparr>;
                         diffs2 = outDiffs @ diffSet
                     in case lookupNode s2 (Block_ID K b) of
                          Inl p \<Rightarrow> Inl p
                        | Inr n \<Rightarrow>
                            (let height = Height n;
                                 s3 = s2\<lparr>currentBlockID := Block_ID K b,
                                        currentPath := (currentPath s2)(height \<mapsto> Block_ID K b)\<rparr>
                             in case StateHeight s3 of
                                  Inl p \<Rightarrow> Inl p
                                | Inr h \<Rightarrow>
                                    (let minerSubsidy2 =
                                           uint64 (minerSubsidy + CalculateCoinbase K h);
                                         minerSubsidyOutput =
                                           \<lparr>Value = minerSubsidy2, SpendHash = MinerAddress b\<rparr>;
                                         s4 = s3\<lparr>unspentOutputs :=
                                                (unspentOutputs s3)
                                                  (SubsidyID K b \<mapsto> minerSubsidyOutput)\<rparr>;
                                         diff = \<lparr>New = True, ID = SubsidyID K b,
                                                 Output = minerSubsidyOutput\<rparr>;
                                         diffs3 = diffs2 @ [diff];
                                         bd3 = bd2\<lparr>BlockChanges :=
                                                 changes\<lparr>bc_OutputDiffs :=
                                                   bc_OutputDiffs changes @ diffs3\<rparr>\<rparr>
                                     in Inr (s4, bd3, diffs3, None)))))))"

definition invertRecentBlock ::
  "('c, 'p) Env \<Rightarrow> ('c, 'p) State \<Rightarrow> panic + (('c, 'p) State \<times> OutputDiff list)" where
  "invertRecentBlock K s =
     (case CurrentBlock s of
        Inl p \<Rightarrow> Inl p
      | Inr cb \<Rightarrow>
          (let subsidyID = SubsidyID K cb in
           case StateOutput s subsidyID of
             Inl err \<Rightarrow> Inl (PanicError err)
           | Inr subsidy \<Rightarrow>
               (let diff = \<lparr>New = False, ID = subsidyID, Output = subsidy\<rparr>;
                    s1 = s\<lparr>unspentOutputs := (unspentOutputs s)(subsidyID := None)\<rparr>
                in case invertContractMaintenance K (unspentOutputs s1) (openContracts s1) of
                     (u, c, diffSet) \<Rightarrow>
                       (case invertTransactions K (s1\<lparr>unspentOutputs := u, openContracts := c\<rparr>)
                               (rev (Transactions cb)) ([diff] @ diffSet) of
                          (s3, outDiffs) \<Rightarrow>
                            (case StateHeight s3 of
                               Inl p \<Rightarrow> Inl p
                             | Inr h \<Rightarrow>
                                 (let s4 = s3\<lparr>currentPath := (currentPath s3)(h := None)\<rparr> in
                                  case CurrentBlock s4 of
                                    Inl p \<Rightarrow> Inl p
                                  | Inr cb2 \<Rightarrow>
                                      Inr (s4\<lparr>currentBlockID := ParentBlockID cb2\<rparr>,
                                           outDiffs)))))))"


section \<open>The reorg controller\<close>

text \<open>
  \<^verbatim>\<open>invalidateNode\<close> recurses through the \<^verbatim>\<open>Children\<close> pointers and then deletes
  the node's block id from \<^verbatim>\<open>blockMap\<close> and adds it to \<^verbatim>\<open>badBlocks\<close>. The recursion
  is written with its stack: \<open>Visit a\<close> is a call on the node at \<open>a\<close> that has not
  started, \<open>Finish a\<close> is the same call after its loop over the children. On a cyclic
  store the recursion does not return.
\<close>

datatype work = Visit nat | Finish nat

partial_function (option) invalidateWork ::
  "('c, 'p) Env \<Rightarrow> ('c, 'p) State \<Rightarrow> work list \<Rightarrow> (panic + ('c, 'p) State) option" where
  "invalidateWork K s ws =
     (case ws of
        [] \<Rightarrow> Some (Inr s)
      | Visit a # rest \<Rightarrow>
          (if a < length (nodes s)
           then invalidateWork K s (map Visit (Children (nodes s ! a)) @ Finish a # rest)
           else Some (Inl NilDereference))
      | Finish a # rest \<Rightarrow>
          invalidateWork K
            (s\<lparr>blockMap := (blockMap s)(Block_ID K (Block (nodes s ! a)) := None),
               badBlocks := insert (Block_ID K (Block (nodes s ! a))) (badBlocks s)\<rparr>)
            rest)"

declare invalidateWork.simps [code]

definition invalidateNode ::
  "('c, 'p) Env \<Rightarrow> ('c, 'p) State \<Rightarrow> nat \<Rightarrow> (panic + ('c, 'p) State) option" where
  "invalidateNode K s a = invalidateWork K s [Visit a]"

text \<open>
  The first loop of \<^verbatim>\<open>forkBlockchain\<close>: the walk from the new node to the first
  ancestor on the canonical path. A missing key of \<^verbatim>\<open>currentPath\<close> reads as the zero
  block id.
\<close>

definition pathValue :: "('c, 'p) State \<Rightarrow> BlockHeight \<Rightarrow> BlockID" where
  "pathValue s h = (case currentPath s h of None \<Rightarrow> 0 | Some bid \<Rightarrow> bid)"

partial_function (option) commonParent ::
  "('c, 'p) Env \<Rightarrow> ('c, 'p) State \<Rightarrow> BlockNode \<Rightarrow> BlockID list
    \<Rightarrow> (panic + (BlockID list \<times> BlockNode)) option" where
  "commonParent K s currentNode parentHistory =
     (if pathValue s (Height currentNode) \<noteq> Block_ID K (Block currentNode)
      then
        (case lookupNode s (ParentBlockID (Block currentNode)) of
           Inl p \<Rightarrow> Some (Inl p)
         | Inr parent \<Rightarrow>
             commonParent K s parent (parentHistory @ [Block_ID K (Block currentNode)]))
      else Some (Inr (parentHistory, currentNode)))"

declare commonParent.simps [code]

text \<open>The second loop: rewinding to the common parent, whose block id is \<open>target\<close>.\<close>

partial_function (option) rewindLoop ::
  "('c, 'p) Env \<Rightarrow> BlockID \<Rightarrow> ('c, 'p) State \<Rightarrow> Block list \<Rightarrow> BlockDiff list
    \<Rightarrow> OutputDiff list
    \<Rightarrow> (panic + (('c, 'p) State \<times> Block list \<times> BlockDiff list \<times> OutputDiff list)) option"
  where
  "rewindLoop K target s rewoundBlocks invertedBlocks outputDiffs =
     (if currentBlockID s \<noteq> target
      then
        (case CurrentBlock s of
           Inl p \<Rightarrow> Some (Inl p)
         | Inr cb \<Rightarrow>
             (case currentBlockNode s of
                Inl p \<Rightarrow> Some (Inl p)
              | Inr cn \<Rightarrow>
                  (case invertRecentBlock K s of
                     Inl p \<Rightarrow> Some (Inl p)
                   | Inr (s1, diffSet) \<Rightarrow>
                       rewindLoop K target s1 (rewoundBlocks @ [cb])
                         (invertedBlocks @ [BlockDiff cn]) (outputDiffs @ diffSet))))
      else Some (Inr (s, rewoundBlocks, invertedBlocks, outputDiffs)))"

declare rewindLoop.simps [code]

text \<open>The loops of the rollback.\<close>

fun invertBlocks ::
  "('c, 'p) Env \<Rightarrow> ('c, 'p) State \<Rightarrow> nat \<Rightarrow> panic + ('c, 'p) State" where
  "invertBlocks K s 0 = Inr s"
| "invertBlocks K s (Suc n) =
     (case invertRecentBlock K s of
        Inl p \<Rightarrow> Inl p
      | Inr (s1, diffSet) \<Rightarrow> invertBlocks K s1 n)"

fun reintegrateBlocks ::
  "('c, 'p) Env \<Rightarrow> ('c, 'p) State \<Rightarrow> Block list \<Rightarrow> panic + ('c, 'p) State" where
  "reintegrateBlocks K s [] = Inr s"
| "reintegrateBlocks K s (b # bs) =
     (case integrateBlock K s b zeroBlockDiff of
        Inl p \<Rightarrow> Inl p
      | Inr (s1, bd, diffSet, err) \<Rightarrow>
          (case err of
             Some e \<Rightarrow>
               Inl (PanicString
                 ''Once-validated blocks are no longer validating - state logic has mistakes.'')
           | None \<Rightarrow> reintegrateBlocks K s1 bs))"

definition stateHashOf :: "('c, 'p) Env \<Rightarrow> ('c, 'p) State \<Rightarrow> Hash" where
  "stateHashOf K s =
     StateHash K (unspentOutputs s) (openContracts s) (currentPath s) (currentBlockID s)"

text \<open>
  The failure branch of the replay loop, up to the \<^verbatim>\<open>break\<close>: \<open>failed\<close> is
  \<^verbatim>\<open>parentHistory[i]\<close>.
\<close>

definition rollback ::
  "('c, 'p) Env \<Rightarrow> ('c, 'p) State \<Rightarrow> BlockID \<Rightarrow> nat \<Rightarrow> Block list \<Rightarrow> Hash
    \<Rightarrow> (panic + ('c, 'p) State) option" where
  "rollback K s failed validatedBlocks rewoundBlocks stateHash =
     (case blockMap s failed of
        None \<Rightarrow> Some (Inl NilDereference)
      | Some a \<Rightarrow>
          (case invalidateNode K s a of
             None \<Rightarrow> None
           | Some (Inl p) \<Rightarrow> Some (Inl p)
           | Some (Inr s1) \<Rightarrow>
               (case invertBlocks K s1 validatedBlocks of
                  Inl p \<Rightarrow> Some (Inl p)
                | Inr s2 \<Rightarrow>
                    (case reintegrateBlocks K s2 (rev rewoundBlocks) of
                       Inl p \<Rightarrow> Some (Inl p)
                     | Inr s3 \<Rightarrow>
                         if DEBUG K \<and> stateHash \<noteq> stateHashOf K s3
                         then Some (Inl (PanicString
                           ''state hash does not match after an unsuccessful fork attempt''))
                         else Some (Inr s3)))))"

text \<open>
  The third loop: the replay of the parent history, \<open>pids\<close> being the ids still to
  replay. The result holds the state and the values of \<^verbatim>\<open>rewoundBlocks\<close>,
  \<^verbatim>\<open>appliedBlocks\<close>, \<^verbatim>\<open>cc.AppliedBlocks\<close> and \<^verbatim>\<open>outputDiffs\<close> when the loop ends.
\<close>

fun replayLoop ::
  "('c, 'p) Env \<Rightarrow> Hash \<Rightarrow> Block list \<Rightarrow> ('c, 'p) State \<Rightarrow> BlockID list \<Rightarrow> Block list
    \<Rightarrow> BlockDiff list \<Rightarrow> nat \<Rightarrow> OutputDiff list
    \<Rightarrow> (panic + (('c, 'p) State \<times> Block list \<times> Block list \<times> BlockDiff list
          \<times> OutputDiff list)) option" where
  "replayLoop K stateHash rewoundBlocks s [] appliedBlocks ccApplied validatedBlocks
     outputDiffs =
     Some (Inr (s, rewoundBlocks, appliedBlocks, ccApplied, outputDiffs))"
| "replayLoop K stateHash rewoundBlocks s (pid # pids) appliedBlocks ccApplied validatedBlocks
     outputDiffs =
     (case lookupNode s pid of
        Inl p \<Rightarrow> Some (Inl p)
      | Inr n \<Rightarrow>
          (let appliedBlock = Block n in
           case integrateBlock K s appliedBlock zeroBlockDiff of
             Inl p \<Rightarrow> Some (Inl p)
           | Inr (s1, bd, diffSet, err) \<Rightarrow>
               (case err of
                  Some e \<Rightarrow>
                    (case rollback K s1 pid validatedBlocks rewoundBlocks stateHash of
                       None \<Rightarrow> None
                     | Some (Inl p) \<Rightarrow> Some (Inl p)
                     | Some (Inr s2) \<Rightarrow> Some (Inr (s2, [], [], ccApplied, [])))
                | None \<Rightarrow>
                    (case blockMap s1 pid of
                       None \<Rightarrow> Some (Inl NilDereference)
                     | Some a \<Rightarrow>
                         if a < length (nodes s1)
                         then
                           replayLoop K stateHash rewoundBlocks
                             (s1\<lparr>nodes := (nodes s1)[a := (nodes s1 ! a)\<lparr>BlockDiff := bd\<rparr>]\<rparr>)
                             pids (appliedBlocks @ [appliedBlock]) (ccApplied @ [bd])
                             (validatedBlocks + 1) (outputDiffs @ diffSet)
                         else Some (Inl NilDereference)))))"

text \<open>
  \<^verbatim>\<open>forkBlockchain\<close>: \<open>na\<close> is the pointer \<^verbatim>\<open>newNode\<close>. The result \<^verbatim>\<open>err\<close> is
  the named result of the function. The replay loop declares an \<^verbatim>\<open>err\<close> of its own
  (\<^verbatim>\<open>diffSet, err := s.integrateBlock(...)\<close>), so the named result is never assigned and
  is nil at the final \<^verbatim>\<open>return\<close>.
\<close>

definition forkBlockchain ::
  "('c, 'p) Env \<Rightarrow> ('c, 'p) State \<Rightarrow> nat
    \<Rightarrow> (panic + (('c, 'p) State \<times> Block list \<times> Block list \<times> OutputDiff list
          \<times> error option)) option" where
  "forkBlockchain K s na =
     (let err = None in
      case nodeAt s na of
        Inl p \<Rightarrow> Some (Inl p)
      | Inr newNode \<Rightarrow>
          (case commonParent K s newNode [] of
             None \<Rightarrow> None
           | Some (Inl p) \<Rightarrow> Some (Inl p)
           | Some (Inr (parentHistory, currentNode)) \<Rightarrow>
               (let stateHash = (if DEBUG K then stateHashOf K s else 0) in
                case rewindLoop K (Block_ID K (Block currentNode)) s [] [] [] of
                  None \<Rightarrow> None
                | Some (Inl p) \<Rightarrow> Some (Inl p)
                | Some (Inr (s1, rewound, invertedBlocks, outputDiffs)) \<Rightarrow>
                    (case replayLoop K stateHash rewound s1 (rev parentHistory) [] [] 0
                            outputDiffs of
                       None \<Rightarrow> None
                     | Some (Inl p) \<Rightarrow> Some (Inl p)
                     | Some (Inr (s2, rewoundBlocks, appliedBlocks, ccApplied, outputDiffs2)) \<Rightarrow>
                         (let cc = \<lparr>InvertedBlocks = invertedBlocks,
                                    AppliedBlocks = ccApplied\<rparr>;
                              s3 = s2\<lparr>transactionPool :=
                                     cleanTransactionPool K (unspentOutputs s2)
                                       (openContracts s2) (transactionPool s2)\<rparr>;
                              s4 = (if appliedBlocks \<noteq> [] then notifySubscribers s3 cc else s3)
                          in Some (Inr (s4, rewoundBlocks, appliedBlocks, outputDiffs2,
                                        err)))))))"

section \<open>AcceptBlock\<close>

text \<open>The end of \<^verbatim>\<open>AcceptBlock\<close>, from the notification of the subscribers on.\<close>

definition finishAccept ::
  "('c, 'p) Env \<Rightarrow> ('c, 'p) State \<Rightarrow> Block list \<Rightarrow> Block list \<Rightarrow> OutputDiff list
    \<Rightarrow> (panic + (('c, 'p) State \<times> Block list \<times> Block list \<times> OutputDiff list
          \<times> error option)) option" where
  "finishAccept K s rewoundBlocks appliedBlocks outputDiffs =
     (let s1 = notifySubscribers s zeroConsensusChange in
      if DEBUG K \<and> \<not> CurrentPathCheck K (currentPath s1) (currentBlockID s1) (blockMap s1)
                      (nodes s1)
      then Some (Inl (PanicString ''current path does not have correct id''))
      else Some (Inr (s1, rewoundBlocks, appliedBlocks, outputDiffs, None)))"

definition AcceptBlock ::
  "('c, 'p) Env \<Rightarrow> Timestamp \<Rightarrow> ('c, 'p) State \<Rightarrow> Block
    \<Rightarrow> (panic + (('c, 'p) State \<times> Block list \<times> Block list \<times> OutputDiff list
          \<times> error option)) option" where
  "AcceptBlock K now s b =
     (case checkDestiny K s b of
        Inl p \<Rightarrow> Some (Inl p)
      | Inr (s1, Some e) \<Rightarrow> Some (Inr (s1, [], [], [], Some e))
      | Inr (s1, None) \<Rightarrow>
          (case blockMap s1 (ParentBlockID b) of
             None \<Rightarrow> Some (Inl NilDereference)
           | Some pa \<Rightarrow>
               (case nodeAt s1 pa of
                  Inl p \<Rightarrow> Some (Inl p)
                | Inr parentNode \<Rightarrow>
                    (case validateHeader K now s1 parentNode b of
                       Inl p \<Rightarrow> Some (Inl p)
                     | Inr (s2, Some e) \<Rightarrow> Some (Inr (s2, [], [], [], Some e))
                     | Inr (s2, None) \<Rightarrow>
                         if MarshalLen K b > BlockSizeLimit K
                         then Some (Inr (s2, [], [], [],
                                Some (ErrorString ''Block is too large, will not be accepted.'')))
                         else
                           (case addBlockToTree K s2 pa b of
                              Inl p \<Rightarrow> Some (Inl p)
                            | Inr (s3, na) \<Rightarrow>
                                (case nodeAt s3 na of
                                   Inl p \<Rightarrow> Some (Inl p)
                                 | Inr newBlockNode \<Rightarrow>
                                     (case heavierFork s3 newBlockNode of
                                        Inl p \<Rightarrow> Some (Inl p)
                                      | Inr heavier \<Rightarrow>
                                          if heavier
                                          then
                                            (case forkBlockchain K s3 na of
                                               None \<Rightarrow> None
                                             | Some (Inl p) \<Rightarrow> Some (Inl p)
                                             | Some (Inr (s4, rewoundBlocks, appliedBlocks,
                                                          outputDiffs, err)) \<Rightarrow>
                                                 if err \<noteq> None
                                                 then Some (Inr (s4, rewoundBlocks,
                                                        appliedBlocks, outputDiffs, err))
                                                 else finishAccept K s4 rewoundBlocks
                                                        appliedBlocks outputDiffs)
                                          else finishAccept K s3 [] [] [])))))))"


section \<open>Notions of the specification\<close>

text \<open>A block is a known orphan when it is recorded under its parent in \<open>missingParents\<close>.\<close>

definition orphanKnown :: "('c, 'p) Env \<Rightarrow> ('c, 'p) State \<Rightarrow> Block \<Rightarrow> bool" where
  "orphanKnown K s b =
     (case missingParents s (ParentBlockID b) of
        None \<Rightarrow> False
      | Some m \<Rightarrow> m (Block_ID K b) \<noteq> None)"



text \<open>The values of a signed 64-bit integer.\<close>

definition in_int64 :: "int \<Rightarrow> bool" where
  "in_int64 x \<longleftrightarrow> - (2 ^ 63) \<le> x \<and> x < 2 ^ 63"

text \<open>
  The retargeting rule in the words of the specification: the window is
  \<open>min child.height TargetWindow\<close>, the anchor is the ancestor of the child at height
  \<open>child.height - window\<close> (the genesis block when \<open>child.height < TargetWindow\<close>), found by
  following the parent ids from the child for at most \<open>window\<close> steps, and the adjustment
  \<open>time_passed / expected_passed\<close> is clamped before the multiplication.
\<close>

fun ancestorAt ::
  "('c, 'p) State \<Rightarrow> nat \<Rightarrow> BlockNode \<Rightarrow> BlockHeight \<Rightarrow> BlockNode option" where
  "ancestorAt s 0 n h = (if Height n = h then Some n else None)"
| "ancestorAt s (Suc k) n h =
     (if Height n = h then Some n
      else (case lookupNode s (ParentBlockID (Block n)) of
              Inl p \<Rightarrow> None
            | Inr parent \<Rightarrow> ancestorAt s k parent h))"

definition spec_anchor :: "('c, 'p) Env \<Rightarrow> ('c, 'p) State \<Rightarrow> BlockNode \<Rightarrow> Block option" where
  "spec_anchor K s child =
     (let window = min (Height child) (TargetWindow K) in
      case ancestorAt s window child (Height child - window) of
        None \<Rightarrow> None
      | Some n \<Rightarrow> Some (Block n))"

definition spec_child_target ::
  "('c, 'p) Env \<Rightarrow> BlockNode \<Rightarrow> BlockNode \<Rightarrow> Block \<Rightarrow> Target" where
  "spec_child_target K parent child anchor =
     (let window = min (Height child) (TargetWindow K);
          time_passed = Timestamp (Block child) - Timestamp anchor;
          expected_passed = BlockFrequency K * int window;
          adj = of_int time_passed / of_int expected_passed;
          clamped = (if adj > MaxAdjustmentUp K then MaxAdjustmentUp K
                     else if adj < MaxAdjustmentDown K then MaxAdjustmentDown K
                     else adj)
      in RatToTarget K (of_nat (Target parent) * clamped))"

text \<open>
  The contract of the transaction layer: \<^verbatim>\<open>invertTransaction\<close> exactly undoes an
  \<^verbatim>\<open>applyTransaction\<close> of a valid transaction.
\<close>

definition txn_inverse :: "('c, 'p) Env \<Rightarrow> bool" where
  "txn_inverse K \<longleftrightarrow>
     (\<forall>u c t. ValidTransaction K u c t = None \<longrightarrow>
        (case applyTransaction K u c t of
           (u1, c1, td) \<Rightarrow>
             (case invertTransaction K u1 c1 t of (u2, c2, ds) \<Rightarrow> u2 = u \<and> c2 = c)))"


section \<open>Invariants of a reorganisation\<close>

text \<open>
  The consensus fields of a state are \<open>unspentOutputs\<close>, \<open>openContracts\<close>,
  \<open>currentPath\<close> and \<open>currentBlockID\<close>, the arguments of \<open>StateHash\<close>. The state
  \<open>withCons t s\<close> has the block tree of \<open>t\<close> and the consensus fields of \<open>s\<close>.
\<close>

definition sameCons :: "('c, 'p) State \<Rightarrow> ('c, 'p) State \<Rightarrow> bool" where
  "sameCons t s \<longleftrightarrow>
     unspentOutputs t = unspentOutputs s \<and> openContracts t = openContracts s
     \<and> currentPath t = currentPath s \<and> currentBlockID t = currentBlockID s"

definition withCons :: "('c, 'p) State \<Rightarrow> ('c, 'p) State \<Rightarrow> ('c, 'p) State" where
  "withCons t s =
     t\<lparr>unspentOutputs := unspentOutputs s, openContracts := openContracts s,
       currentPath := currentPath s, currentBlockID := currentBlockID s\<rparr>"

text \<open>
  What \<open>integrateBlock\<close> and \<open>invertRecentBlock\<close> read of the node of a block: its
  block and its height.
\<close>

definition nodeView :: "('c, 'p) State \<Rightarrow> BlockID \<Rightarrow> (Block \<times> BlockHeight) option" where
  "nodeView s bid =
     (case lookupNode s bid of Inl p \<Rightarrow> None | Inr n \<Rightarrow> Some (Block n, Height n))"

text \<open>
  The contract of the contract layer, whose code is not part of the package:
  \<open>invertContractMaintenance\<close> undoes \<open>applyContractMaintenance\<close> on the ledger.
\<close>

definition cm_inverse :: "('c, 'p) Env \<Rightarrow> bool" where
  "cm_inverse K \<longleftrightarrow>
     (\<forall>u c changes.
        (case applyContractMaintenance K u c changes of
           (u1, c1, changes1, ds) \<Rightarrow>
             (case invertContractMaintenance K u1 c1 of (u2, c2, ds2) \<Rightarrow> u2 = u \<and> c2 = c)))"

text \<open>
  \<open>addBlockToTree\<close> allocates a node after its parent, so the address of a child is
  above the address of its parent. The descendants of a node, in the order in which
  \<open>invalidateNode\<close> leaves them, and the ids of the blocks of a subtree.
\<close>

definition heapOrdered :: "BlockNode list \<Rightarrow> bool" where
  "heapOrdered ns \<longleftrightarrow>
     (\<forall>a < length ns. \<forall>c \<in> set (Children (ns ! a)). a < c \<and> c < length ns)"

fun descendants :: "BlockNode list \<Rightarrow> nat \<Rightarrow> nat \<Rightarrow> nat list" where
  "descendants ns 0 a = [a]"
| "descendants ns (Suc fuel) a =
     concat (map (descendants ns fuel) (Children (ns ! a))) @ [a]"

definition idsOf :: "('c, 'p) Env \<Rightarrow> BlockNode list \<Rightarrow> nat list \<Rightarrow> BlockID set" where
  "idsOf K ns as = (\<lambda>a. Block_ID K (Block (ns ! a))) ` set as"

definition subtreeIDs :: "('c, 'p) Env \<Rightarrow> BlockNode list \<Rightarrow> nat \<Rightarrow> BlockID set" where
  "subtreeIDs K ns a = idsOf K ns (descendants ns (length ns) a)"

text \<open>
  The effect of \<open>invalidateNode\<close> on a subtree whose block ids are \<open>D\<close>.
\<close>

definition invalidated :: "('c, 'p) State \<Rightarrow> BlockID set \<Rightarrow> ('c, 'p) State" where
  "invalidated s D =
     s\<lparr>blockMap := (\<lambda>bid. if bid \<in> D then None else blockMap s bid),
       badBlocks := badBlocks s \<union> D\<rparr>"

text \<open>
  A block can be taken back exactly when it extends the tip, its node lies above the
  canonical path, and the id of its subsidy is fresh: \<open>invertRecentBlock\<close> deletes the
  subsidy output and the path entry rather than restoring what they replaced.
\<close>

definition ledgerBeforeSubsidy ::
  "('c, 'p) Env \<Rightarrow> ('c, 'p) State \<Rightarrow> Block \<Rightarrow> (OutputID \<rightharpoonup> Output)" where
  "ledgerBeforeSubsidy K s b =
     (case applyTransactions K s (Transactions b) [] [] (TransactionDiffs zeroBlockDiff) 0 of
        (s1, ap, ds, tds, sub, err) \<Rightarrow>
          (case applyContractMaintenance K (unspentOutputs s1) (openContracts s1)
                  (BlockChanges zeroBlockDiff) of
             (u, c, changes, dset) \<Rightarrow> u))"

definition reversible :: "('c, 'p) Env \<Rightarrow> ('c, 'p) State \<Rightarrow> Block \<Rightarrow> bool" where
  "reversible K s b \<longleftrightarrow>
     ParentBlockID b = currentBlockID s
     \<and> (case lookupNode s (Block_ID K b) of
          Inl p \<Rightarrow> False
        | Inr n \<Rightarrow> Block n = b \<and> currentPath s (Height n) = None)
     \<and> ledgerBeforeSubsidy K s b (SubsidyID K b) = None"

text \<open>
  \<open>integratedFrom K sb bs s\<close>: the state \<open>s\<close> is the state \<open>sb\<close> after the integration of the
  blocks \<open>bs\<close>, the oldest first, each of them integrated without error.
\<close>

fun integratedFrom :: "('c, 'p) Env \<Rightarrow> ('c, 'p) State \<Rightarrow> Block list \<Rightarrow> ('c, 'p) State \<Rightarrow> bool" where
  "integratedFrom K sb [] s = (s = sb)"
| "integratedFrom K sb (b # bs) s =
     (reversible K sb b
      \<and> (case integrateBlock K sb b zeroBlockDiff of
           Inl p \<Rightarrow> False
         | Inr (s1, bd, ds, err) \<Rightarrow> err = None \<and> integratedFrom K s1 bs s))"

text \<open>
  The replay of the ids \<open>pids\<close> from the state \<open>s\<close>, as the third loop of
  \<open>forkBlockchain\<close> runs it: \<open>Some a\<close> when the blocks before the one at address \<open>a\<close>
  integrate without error and can be taken back, the block at \<open>a\<close> is rejected, and no
  block of \<open>keep\<close> (the rewound blocks and those replayed so far) lies in the subtree
  of \<open>a\<close>.
\<close>

fun replayFailure ::
  "('c, 'p) Env \<Rightarrow> BlockID list \<Rightarrow> ('c, 'p) State \<Rightarrow> BlockID list \<Rightarrow> nat option" where
  "replayFailure K keep s [] = None"
| "replayFailure K keep s (pid # pids) =
     (case blockMap s pid of
        None \<Rightarrow> None
      | Some a \<Rightarrow>
          if \<not> a < length (nodes s) then None
          else
            (case integrateBlock K s (Block (nodes s ! a)) zeroBlockDiff of
               Inl p \<Rightarrow> None
             | Inr (s1, bd, ds, err) \<Rightarrow>
                 (case err of
                    Some e \<Rightarrow>
                      if subtreeIDs K (nodes s) a \<inter> set keep = {} then Some a else None
                  | None \<Rightarrow>
                      if reversible K s (Block (nodes s ! a))
                      then replayFailure K (Block_ID K (Block (nodes s ! a)) # keep)
                             (s1\<lparr>nodes := (nodes s1)[a := (nodes s1 ! a)\<lparr>BlockDiff := bd\<rparr>]\<rparr>)
                             pids
                      else None)))"




section \<open>A small instance\<close>

text \<open>
  An instance of the parameters for the examples: the id of a block is its nonce, a
  transaction with body \<open>n > 0\<close> creates the output \<open>n\<close> and is valid when that output
  is not yet unspent, a transaction with body \<open>0\<close> is invalid, and contract maintenance
  counts the integrated blocks.
\<close>

definition exOutput :: Output where
  "exOutput = \<lparr>Value = 1, SpendHash = 0\<rparr>"

definition exEnv :: "(nat, nat) Env" where
  "exEnv =
     \<lparr>DEBUG = True, FutureThreshold = 10800, TargetWindow = 5000, BlockFrequency = 600,
      MaxAdjustmentUp = Fract 1001 1000, MaxAdjustmentDown = Fract 999 1000,
      BlockSizeLimit = 100,
      Block_ID = Nonce, SubsidyID = (\<lambda>b. 1000 + Nonce b),
      CheckTarget = (\<lambda>b t. True),
      TransactionMerkleRoot = (\<lambda>b. length (Transactions b)),
      MarshalLen = (\<lambda>b. length (Transactions b)),
      RatToTarget = (\<lambda>r. nat \<lfloor>r\<rfloor>),
      CalculateCoinbase = (\<lambda>h. 10),
      ValidTransaction =
        (\<lambda>u c t. if TxnBody t = 0 then Some (ErrorString ''invalid transaction'')
                 else if u (TxnBody t) \<noteq> None then Some (ErrorString ''output exists'')
                 else None),
      applyTransaction =
        (\<lambda>u c t. (u(TxnBody t \<mapsto> exOutput), c,
                  \<lparr>td_OutputDiffs = [\<lparr>New = True, ID = TxnBody t, Output = exOutput\<rparr>],
                   td_ContractDiffs = []\<rparr>)),
      invertTransaction =
        (\<lambda>u c t. (u(TxnBody t := None), c,
                  [\<lparr>New = False, ID = TxnBody t, Output = exOutput\<rparr>])),
      applyContractMaintenance = (\<lambda>u c bc. (u, c + 1, bc, [])),
      invertContractMaintenance = (\<lambda>u c. (u, c - 1, [])),
      cleanTransactionPool = (\<lambda>u c p. p),
      StateHash = (\<lambda>u c path tip. tip + c),
      CurrentPathCheck = (\<lambda>path tip bm ns. True)\<rparr>"

definition exBlock :: "nat \<Rightarrow> nat \<Rightarrow> int \<Rightarrow> nat list \<Rightarrow> Block" where
  "exBlock parent nonce ts bodies =
     \<lparr>ParentBlockID = parent, Timestamp = ts, Nonce = nonce, MinerAddress = 7,
      MerkleRoot = length bodies,
      Transactions = map (\<lambda>n. \<lparr>MinerFees = [2], TxnBody = n\<rparr>) bodies\<rparr>"

text \<open>
  The genesis block \<open>G\<close> (id 1), the block \<open>A\<close> (id 2) on it, and the competing branch
  \<open>B\<close> (id 3) and \<open>C\<close> (id 4), whose second transaction is invalid; \<open>D\<close> (id 5) is a
  valid block on \<open>B\<close>.
\<close>

definition exBlockG :: Block where "exBlockG = exBlock 0 1 1000 []"
definition exBlockA :: Block where "exBlockA = exBlock 1 2 1600 [50]"
definition exBlockB :: Block where "exBlockB = exBlock 1 3 1650 [60]"
definition exBlockC :: Block where "exBlockC = exBlock 3 4 2200 [70, 0]"
definition exBlockD :: Block where "exBlockD = exBlock 3 5 2200 [70]"
definition exOrphan :: Block where "exOrphan = exBlock 99 9 1600 []"
definition exEarly :: Block where "exEarly = exBlock 1 5 900 []"

definition exSubsidy :: Output where
  "exSubsidy = \<lparr>Value = 12, SpendHash = 7\<rparr>"

definition exDiff :: "nat \<Rightarrow> nat \<Rightarrow> BlockDiff" where
  "exDiff bid body =
     \<lparr>CatalystBlock = bid,
      TransactionDiffs =
        [\<lparr>td_OutputDiffs = [\<lparr>New = True, ID = body, Output = exOutput\<rparr>],
          td_ContractDiffs = []\<rparr>],
      BlockChanges =
        \<lparr>bc_OutputDiffs =
           [\<lparr>New = True, ID = body, Output = exOutput\<rparr>,
            \<lparr>New = True, ID = 1000 + bid, Output = exSubsidy\<rparr>],
         bc_ContractDiffs = []\<rparr>\<rparr>"

definition exNodeG :: "nat list \<Rightarrow> BlockNode" where
  "exNodeG children =
     \<lparr>Block = exBlockG, Children = children, Height = 0, Depth = 1000000, Target = 1000,
      RecentTimestamps = [1000, 1000, 1000, 1000, 1000, 1000, 1000, 1000, 1000, 1000, 1000],
      BlockDiff = zeroBlockDiff\<rparr>"

definition exNodeA :: BlockNode where
  "exNodeA =
     \<lparr>Block = exBlockA, Children = [], Height = 1, Depth = 999, Target = 1000,
      RecentTimestamps = [1000, 1000, 1000, 1000, 1000, 1000, 1000, 1000, 1000, 1000, 1600],
      BlockDiff = exDiff 2 50\<rparr>"

definition exNodeB :: "nat list \<Rightarrow> BlockDiff \<Rightarrow> BlockNode" where
  "exNodeB children bd =
     \<lparr>Block = exBlockB, Children = children, Height = 1, Depth = 999, Target = 1001,
      RecentTimestamps = [1000, 1000, 1000, 1000, 1000, 1000, 1000, 1000, 1000, 1000, 1650],
      BlockDiff = bd\<rparr>"

definition exNodeC :: BlockNode where
  "exNodeC =
     \<lparr>Block = exBlockC, Children = [], Height = 2, Depth = 499, Target = 1001,
      RecentTimestamps = [1000, 1000, 1000, 1000, 1000, 1000, 1000, 1000, 1000, 1650, 2200],
      BlockDiff = zeroBlockDiff\<rparr>"

text \<open>
  The state with only the genesis block; the state \<open>exStateB\<close> with \<open>A\<close> as the tip and
  \<open>B\<close> in the tree, one subscriber having received nothing yet; the state \<open>exStateC\<close>
  after \<open>C\<close> has been added to the tree; and \<open>exStateC0\<close>, the same tree with the ledger
  and the canonical path as they are at the genesis block.
\<close>

definition exState0 :: "(nat, nat) State" where
  "exState0 =
     \<lparr>blockRoot = 0, badBlocks = {}, blockMap = [1 \<mapsto> 0], nodes = [exNodeG []],
      missingParents = Map.empty, currentBlockID = 1, currentPath = [0 \<mapsto> 1],
      unspentOutputs = Map.empty, openContracts = 0, transactionPool = 0,
      futureBlocks = [], subscriptions = [[]]\<rparr>"

definition exStateB :: "(nat, nat) State" where
  "exStateB =
     \<lparr>blockRoot = 0, badBlocks = {}, blockMap = [1 \<mapsto> 0, 2 \<mapsto> 1, 3 \<mapsto> 2],
      nodes = [exNodeG [1, 2], exNodeA, exNodeB [] zeroBlockDiff],
      missingParents = Map.empty, currentBlockID = 2, currentPath = [0 \<mapsto> 1, 1 \<mapsto> 2],
      unspentOutputs = [50 \<mapsto> exOutput, 1002 \<mapsto> exSubsidy], openContracts = 1,
      transactionPool = 0, futureBlocks = [], subscriptions = [[]]\<rparr>"

definition exStateC :: "(nat, nat) State" where
  "exStateC =
     exStateB\<lparr>nodes := [exNodeG [1, 2], exNodeA, exNodeB [3] zeroBlockDiff, exNodeC],
              blockMap := [1 \<mapsto> 0, 2 \<mapsto> 1, 3 \<mapsto> 2, 4 \<mapsto> 3]\<rparr>"

definition exStateC0 :: "(nat, nat) State" where
  "exStateC0 =
     exStateC\<lparr>currentBlockID := 1, currentPath := [0 \<mapsto> 1], unspentOutputs := Map.empty,
              openContracts := 0\<rparr>"

text \<open>The state after the failed switch to \<open>C\<close>, before the last notification.\<close>

definition exStateF :: "(nat, nat) State" where
  "exStateF =
     exStateC\<lparr>nodes := [exNodeG [1, 2], exNodeA, exNodeB [3] (exDiff 3 60), exNodeC],
              blockMap := [1 \<mapsto> 0, 2 \<mapsto> 1, 3 \<mapsto> 2], badBlocks := {4}\<rparr>"

text \<open>
  The state in which \<open>C\<close> is replayed during the switch: \<open>A\<close> rewound and \<open>B\<close>
  integrated, its block diff cached on its node.
\<close>

definition exStateR :: "(nat, nat) State" where
  "exStateR =
     exStateC\<lparr>nodes := [exNodeG [1, 2], exNodeA, exNodeB [3] (exDiff 3 60), exNodeC],
              currentBlockID := 3, currentPath := [0 \<mapsto> 1, 1 \<mapsto> 3],
              unspentOutputs := [60 \<mapsto> exOutput, 1003 \<mapsto> exSubsidy]\<rparr>"

definition exDiffC :: BlockDiff where
  "exDiffC =
     \<lparr>CatalystBlock = 4,
      TransactionDiffs =
        [\<lparr>td_OutputDiffs = [\<lparr>New = True, ID = 70, Output = exOutput\<rparr>],
          td_ContractDiffs = []\<rparr>],
      BlockChanges = \<lparr>bc_OutputDiffs = [], bc_ContractDiffs = []\<rparr>\<rparr>"

text \<open>
  The state before \<open>B\<close> arrives, with \<open>A\<close> as the tip; the node of \<open>D\<close>, the state
  \<open>exStateD\<close> after \<open>D\<close> has been added to the tree, and \<open>exStateD0\<close>, the same tree with the
  ledger and the canonical path as they are at the genesis block.
\<close>

definition exStateA :: "(nat, nat) State" where
  "exStateA = exStateB\<lparr>nodes := [exNodeG [1], exNodeA], blockMap := [1 \<mapsto> 0, 2 \<mapsto> 1]\<rparr>"

definition exNodeD :: BlockNode where
  "exNodeD = exNodeC\<lparr>Block := exBlockD\<rparr>"

definition exStateD :: "(nat, nat) State" where
  "exStateD =
     exStateB\<lparr>nodes := [exNodeG [1, 2], exNodeA, exNodeB [3] zeroBlockDiff, exNodeD],
              blockMap := [1 \<mapsto> 0, 2 \<mapsto> 1, 3 \<mapsto> 2, 5 \<mapsto> 3]\<rparr>"

definition exStateD0 :: "(nat, nat) State" where
  "exStateD0 =
     exStateD\<lparr>currentBlockID := 1, currentPath := [0 \<mapsto> 1], unspentOutputs := Map.empty,
              openContracts := 0\<rparr>"

text \<open>
  The instance with a retargeting window of one block, and a block \<open>E\<close> on \<open>C\<close>.
\<close>

definition exEnvW :: "(nat, nat) Env" where
  "exEnvW = exEnv\<lparr>TargetWindow := 1\<rparr>"

definition exBlockE :: Block where "exBlockE = exBlock 4 6 2300 []"

text \<open>
  The instance in which a block meets a target when its id is at most the target, and a
  block that does not meet the target of the genesis node; a parent whose recent timestamps
  lie ahead of the clock, and a block on it.
\<close>

definition exEnvT :: "(nat, nat) Env" where
  "exEnvT = exEnv\<lparr>CheckTarget := (\<lambda>b t. Nonce b \<le> t)\<rparr>"

definition exWeak :: Block where "exWeak = exBlock 1 5000 900 []"
definition exAhead :: Block where "exAhead = exBlock 1 5 15000 []"

definition exNodeLate :: BlockNode where
  "exNodeLate =
     (exNodeG [])\<lparr>RecentTimestamps :=
        [20000, 20000, 20000, 20000, 20000, 20000, 20000, 20000, 20000, 20000, 20000]\<rparr>"

section \<open>Evaluation of the model\<close>

lemmas model_defs =
  checkDestiny_def handleOrphanBlock_def validateHeader_def earliestChildTimestamp_def
  MedianTimestampWindow_def int64_def uint64_def nodeAt_def lookupNode_def
  currentBlockNode_def CurrentBlock_def StateHeight_def StateDepth_def TargetRat_def
  Inverse_def CurrentBlockWeight_def StateOutput_def BlockAtHeight_def
  notifySubscribers_def Cmp_def childTarget_def childDepth_def heavierFork_def
  copy_slice_def zeroBlock_def zeroBlockNode_def zeroBlockDiff_def zeroConsensusChange_def
  addBlockToTree_def integrateBlock_def invertRecentBlock_def invalidateNode_def
  pathValue_def stateHashOf_def rollback_def forkBlockchain_def finishAccept_def
  AcceptBlock_def SurpassThreshold_def

lemmas ex_defs =
  exOutput_def exEnv_def exBlock_def exBlockG_def exBlockA_def exBlockB_def exBlockC_def
  exBlockD_def
  exOrphan_def exEarly_def exSubsidy_def exDiff_def exNodeG_def exNodeA_def exNodeB_def
  exNodeC_def exState0_def exStateB_def exStateC_def exStateC0_def exStateF_def
  exStateR_def exDiffC_def exEnvW_def exEnvT_def exWeak_def exAhead_def exNodeLate_def
  exStateA_def exNodeD_def exStateD_def exStateD0_def exBlockE_def

lemma floor_rat_div_numeral:
  "\<lfloor>(numeral a :: rat) / numeral b\<rfloor> = numeral a div numeral b"
  using floor_divide_of_int_eq [of "numeral a" "numeral b", where ?'a = rat] by simp

lemma replicate_eleven: "replicate 11 x = [x, x, x, x, x, x, x, x, x, x, x]"
  by (simp add: numeral_eq_Suc)

lemmas ev =
  model_defs ex_defs Fract_of_int_quotient Let_def floor_rat_div_numeral replicate_eleven
  commonParent.simps rewindLoop.simps invalidateWork.simps


lemma ex_integrate_A:
  "integrateBlock exEnv exStateC0 exBlockA zeroBlockDiff =
     Inr (exStateC, exDiff 2 50,
          [\<lparr>New = True, ID = 50, Output = exOutput\<rparr>,
           \<lparr>New = True, ID = 1002, Output = exSubsidy\<rparr>], None)"
  by (simp add: ev)

lemma ex_add_C: "addBlockToTree exEnv exStateB 2 exBlockC = Inr (exStateC, 3)"
  by (simp add: ev numeral_3_eq_3 [symmetric])

lemma ex_fork_C: "forkBlockchain exEnv exStateC 3 = Some (Inr (exStateF, [], [], [], None))"
  by (simp add: ev)

lemma ex_accept_C:
  "AcceptBlock exEnv 2300 exStateB exBlockC =
     Some (Inr (exStateF\<lparr>subscriptions := [[zeroConsensusChange]]\<rparr>, [], [], [], None))"
  by (simp add: ev numeral_3_eq_3 [symmetric])

section \<open>The orphan pool\<close>

text \<open>
  Claim C7. For every block whose parent id is absent from \<open>blockMap\<close>,
  \<open>handleOrphanBlock\<close> returns an error and never nil: \<open>KnownOrphanErr\<close>, with the state
  unchanged, if the block is already recorded under its parent in \<open>missingParents\<close>;
  otherwise \<open>UnknownOrphanErr\<close>, after recording the block under its parent (the entry
  of the parent being created if needed) and changing nothing else. \<open>checkDestiny\<close>
  returns this result for a block that is neither bad nor known.
\<close>

theorem handleOrphanBlock_result:
  assumes "blockMap s (ParentBlockID b) = None"
  shows "\<exists>s' e. handleOrphanBlock K s b = Inr (s', Some e)
           \<and> (e = KnownOrphanErr \<or> e = UnknownOrphanErr)
           \<and> (if orphanKnown K s b
                then e = KnownOrphanErr \<and> s' = s
                else e = UnknownOrphanErr
                   \<and> (\<exists>m. missingParents s' (ParentBlockID b) = Some m
                          \<and> m (Block_ID K b) = Some b
                          \<and> (\<forall>c. c \<noteq> Block_ID K b \<longrightarrow>
                                m c = (case missingParents s (ParentBlockID b) of
                                         None \<Rightarrow> None | Some m0 \<Rightarrow> m0 c)))
                   \<and> (\<forall>q. q \<noteq> ParentBlockID b \<longrightarrow>
                          missingParents s' q = missingParents s q)
                   \<and> s' = s\<lparr>missingParents := missingParents s'\<rparr>)
           \<and> (Block_ID K b \<notin> badBlocks s \<and> blockMap s (Block_ID K b) = None
                \<longrightarrow> checkDestiny K s b = Inr (s', Some e))"
  using assms
  by (auto simp: handleOrphanBlock_def orphanKnown_def checkDestiny_def split: option.splits)

theorem handleOrphanBlock_result_witness:
  "blockMap exState0 (ParentBlockID exOrphan) = None
   \<and> \<not> orphanKnown exEnv exState0 exOrphan
   \<and> handleOrphanBlock exEnv exState0 exOrphan =
       Inr (exState0\<lparr>missingParents := [99 \<mapsto> [9 \<mapsto> exOrphan]]\<rparr>, Some UnknownOrphanErr)
   \<and> checkDestiny exEnv exState0 exOrphan =
       Inr (exState0\<lparr>missingParents := [99 \<mapsto> [9 \<mapsto> exOrphan]]\<rparr>, Some UnknownOrphanErr)"
proof -
  have h: "blockMap exState0 (ParentBlockID exOrphan) = None"
    by (simp add: ev)
  from handleOrphanBlock_result [OF h, of exEnv] show ?thesis
    by (simp add: ev orphanKnown_def)
qed

section \<open>The median-past timestamp rule\<close>








section \<open>The heavier-fork rule\<close>

text \<open>
  Claim C4. With \<open>tip\<close> the node of the current block and the targets involved not zero,
  \<open>heavierFork\<close> returns true if and only if the inverse of the depth of the candidate
  is strictly greater than the inverse of the depth of the tip plus the inverse of the
  target of the tip times \<open>5/100\<close>, in rational arithmetic. A candidate whose inverse
  depth equals that of the tip does not win.
\<close>

theorem heavierFork_rule:
  assumes "currentBlockNode s = Inr tip"
    and "Target tip \<noteq> 0" and "Depth tip \<noteq> 0" and "Depth newNode \<noteq> 0"
  shows "heavierFork s newNode =
           Inr ((1 :: rat) / of_nat (Depth newNode)
                  > 1 / of_nat (Depth tip) + (1 / of_nat (Target tip)) * (5 / 100))
         \<and> ((1 :: rat) / of_nat (Depth newNode) = 1 / of_nat (Depth tip)
              \<longrightarrow> heavierFork s newNode = Inr False)"
proof -
  have st: "SurpassThreshold = 5 / 100"
    by (simp add: SurpassThreshold_def Fract_of_int_quotient)
  have eq: "heavierFork s newNode =
           Inr ((1 :: rat) / of_nat (Depth newNode)
                  > 1 / of_nat (Depth tip) + (1 / of_nat (Target tip)) * (5 / 100))"
    using assms
    by (simp add: heavierFork_def CurrentBlockWeight_def StateDepth_def Inverse_def
        TargetRat_def Cmp_def st Let_def)
  have pos: "(0 :: rat) < (1 / of_nat (Target tip)) * (5 / 100)"
    using assms by simp
  show ?thesis using eq pos by auto
qed

theorem heavierFork_rule_witness:
  "currentBlockNode exStateC = Inr exNodeA
   \<and> Target exNodeA \<noteq> 0 \<and> Depth exNodeA \<noteq> 0 \<and> Depth exNodeC \<noteq> 0
   \<and> Depth (exNodeB [3] zeroBlockDiff) \<noteq> 0
   \<and> heavierFork exStateC exNodeC = Inr True
   \<and> heavierFork exStateC (exNodeB [3] zeroBlockDiff) = Inr False"
proof -
  have h: "currentBlockNode exStateC = Inr exNodeA" "Target exNodeA \<noteq> 0"
    "Depth exNodeA \<noteq> 0" "Depth exNodeC \<noteq> 0" "Depth (exNodeB [3] zeroBlockDiff) \<noteq> 0"
    by (simp_all add: ev)
  from heavierFork_rule [OF h(1,2,3,4)] heavierFork_rule [OF h(1,2,3,5)] h
  show ?thesis by (simp add: ev)
qed

section \<open>Retargeting\<close>

lemma int64_id: "in_int64 x \<Longrightarrow> int64 x = x"
  by (simp add: in_int64_def int64_def)

lemma Cmp_gt: "Cmp x y = 1 \<longleftrightarrow> y < x"
  by (auto simp: Cmp_def)

lemma Cmp_lt: "Cmp x y = - 1 \<longleftrightarrow> x < y"
  by (auto simp: Cmp_def)

text \<open>
  Where the code and the specification agree. \<^verbatim>\<open>childTarget\<close> takes the genesis block from
  \<^verbatim>\<open>s.blockRoot\<close> and the block at height \<open>child.height - TargetWindow\<close> from the canonical
  path of the state. When this block is the anchor of the specification, the values fit a
  signed 64-bit integer and the expected time is not zero, \<^verbatim>\<open>childTarget\<close> returns the
  target of the specification.
\<close>

lemma childTarget_on_path:
  assumes anchor: "spec_anchor K s child = Some anchor"
    and agree: "if Height child < TargetWindow K
                then (\<exists>g. nodeAt s (blockRoot s) = Inr g \<and> Block g = anchor)
                else BlockAtHeight s (Height child - TargetWindow K) = Inr anchor"
    and tp: "in_int64 (Timestamp (Block child) - Timestamp anchor)"
    and w: "in_int64 (int (min (Height child) (TargetWindow K)))"
    and ex: "in_int64 (BlockFrequency K * int (min (Height child) (TargetWindow K)))"
    and nz: "BlockFrequency K * int (min (Height child) (TargetWindow K)) \<noteq> 0"
  shows "childTarget K s parent child = Inr (spec_child_target K parent child anchor)"
proof (cases "Height child < TargetWindow K")
  case True
  then have m: "min (Height child) (TargetWindow K) = Height child" by simp
  from agree True obtain g where g: "nodeAt s (blockRoot s) = Inr g" "Block g = anchor"
    by auto
  show ?thesis
    using True g tp w ex nz unfolding m
    by (simp add: childTarget_def spec_child_target_def int64_id Cmp_gt Cmp_lt
        Fract_of_int_quotient Let_def TargetRat_def)
next
  case False
  then have m: "min (Height child) (TargetWindow K) = TargetWindow K" by simp
  from agree False have
    a: "BlockAtHeight s (Height child - TargetWindow K) = Inr anchor"
    by simp
  show ?thesis
    using False a tp w ex nz unfolding m
    by (simp add: childTarget_def spec_child_target_def int64_id Cmp_gt Cmp_lt
        Fract_of_int_quotient Let_def TargetRat_def)
qed

text \<open>
  Claim C5 on the code. With a window of one block, in the state \<open>exStateB\<close> (tip \<open>A\<close>,
  with \<open>B\<close> beside it), the child \<open>D\<close> of \<open>B\<close> has height 2 and its ancestor at height 1 is
  \<open>B\<close>, so the target of the specification is \<open>999\<close>: the time passed since \<open>B\<close> is 550
  against 600 expected, and the adjustment is clamped to \<open>MaxAdjustmentDown\<close>.
  \<^verbatim>\<open>childTarget\<close> takes the block of the canonical path at height 1, which is \<open>A\<close>, and
  returns \<open>1001\<close>; \<^verbatim>\<open>addBlockToTree\<close> stores this target on the node of \<open>D\<close>.
\<close>

theorem childTarget_anchor_divergence:
  "spec_anchor exEnvW exStateB (zeroBlockNode\<lparr>Block := exBlockD, Height := 2\<rparr>) = Some exBlockB
   \<and> BlockAtHeight exStateB
        (Height (zeroBlockNode\<lparr>Block := exBlockD, Height := 2\<rparr>) - TargetWindow exEnvW)
       = Inr exBlockA
   \<and> spec_child_target exEnvW (exNodeB [] zeroBlockDiff)
        (zeroBlockNode\<lparr>Block := exBlockD, Height := 2\<rparr>) exBlockB = 999
   \<and> childTarget exEnvW exStateB (exNodeB [] zeroBlockDiff)
        (zeroBlockNode\<lparr>Block := exBlockD, Height := 2\<rparr>) = Inr 1001
   \<and> (\<exists>s3. addBlockToTree exEnvW exStateB 2 exBlockD = Inr (s3, 3)
          \<and> map Target (nodes s3) = [1000, 1000, 1001, 1001])"
  by (simp add: ev spec_anchor_def spec_child_target_def)


section \<open>The transaction loop of integrateBlock\<close>

lemma txn_inverseD:
  assumes "txn_inverse K" and "ValidTransaction K u c t = None"
    and "applyTransaction K u c t = (u1, c1, td)"
    and "invertTransaction K u1 c1 t = (u2, c2, ds)"
  shows "u2 = u \<and> c2 = c"
proof -
  note h = assms(1) [unfolded txn_inverse_def, rule_format, OF assms(2)]
  from h assms(3,4) show ?thesis by simp
qed

lemma applyTransactions_acc:
  "applyTransactions K s txns ap ds tds sub = (s', ap', ds', tds', sub', err) \<Longrightarrow>
     \<exists>nap ntds. ap' = ap @ nap \<and> tds' = tds @ ntds
        \<and> ds' = ds @ concat (map td_OutputDiffs ntds) \<and> length ntds = length nap
        \<and> (err = None \<longrightarrow> nap = txns)
        \<and> (\<forall>e. err = Some e \<longrightarrow>
              (\<exists>t post. txns = nap @ t # post
                 \<and> ValidTransaction K (unspentOutputs s') (openContracts s') t = Some e))
        \<and> s' = s\<lparr>unspentOutputs := unspentOutputs s', openContracts := openContracts s'\<rparr>"
proof (induction txns arbitrary: s ap ds tds sub)
  case Nil
  then show ?case by auto
next
  case (Cons txn txns)
  show ?case
  proof (cases "ValidTransaction K (unspentOutputs s) (openContracts s) txn")
    case (Some e)
    with Cons.prems have f: "s' = s" "ap' = ap" "ds' = ds" "tds' = tds" "err = Some e"
      by auto
    show ?thesis
      apply (rule exI [of _ "[]"], rule exI [of _ "[]"])
      using f Some by auto
  next
    case None
    obtain u c td where
      ap: "applyTransaction K (unspentOutputs s) (openContracts s) txn = (u, c, td)"
      by (cases "applyTransaction K (unspentOutputs s) (openContracts s) txn") auto
    let ?s1 = "s\<lparr>unspentOutputs := u, openContracts := c\<rparr>"
    from Cons.prems None ap
    have "applyTransactions K ?s1 txns (ap @ [txn]) (ds @ td_OutputDiffs td) (tds @ [td])
            (fold (\<lambda>fee acc. uint64 (acc + fee)) (MinerFees txn) sub)
          = (s', ap', ds', tds', sub', err)" by simp
    from Cons.IH [OF this] obtain nap ntds where
      h: "ap' = (ap @ [txn]) @ nap" "tds' = (tds @ [td]) @ ntds"
         "ds' = (ds @ td_OutputDiffs td) @ concat (map td_OutputDiffs ntds)"
         "length ntds = length nap" "err = None \<longrightarrow> nap = txns"
         "\<forall>e. err = Some e \<longrightarrow>
              (\<exists>t post. txns = nap @ t # post
                 \<and> ValidTransaction K (unspentOutputs s') (openContracts s') t = Some e)"
         "s' = ?s1\<lparr>unspentOutputs := unspentOutputs s', openContracts := openContracts s'\<rparr>"
      by (elim exE conjE) (rule that, assumption+)
    show ?thesis
      apply (rule exI [of _ "txn # nap"], rule exI [of _ "td # ntds"])
      using h by auto
  qed
qed

lemma invertTransactions_append:
  "invertTransactions K s (xs @ ys) acc =
     (case invertTransactions K s xs acc of (s1, acc1) \<Rightarrow> invertTransactions K s1 ys acc1)"
  by (induction xs arbitrary: s acc) (auto split: prod.splits)

lemma applyTransactions_inverted:
  assumes "txn_inverse K"
  shows "applyTransactions K s txns ap ds tds sub = (s', ap @ nap, ds', tds', sub', err) \<Longrightarrow>
     fst (invertTransactions K s' (rev nap) acc) = s"
proof (induction txns arbitrary: s ap ds tds sub nap acc)
  case Nil
  then show ?case by auto
next
  case (Cons txn txns)
  show ?case
  proof (cases "ValidTransaction K (unspentOutputs s) (openContracts s) txn")
    case (Some e)
    with Cons.prems show ?thesis by auto
  next
    case None
    obtain u c td where
      ap: "applyTransaction K (unspentOutputs s) (openContracts s) txn = (u, c, td)"
      by (cases "applyTransaction K (unspentOutputs s) (openContracts s) txn") auto
    let ?s1 = "s\<lparr>unspentOutputs := u, openContracts := c\<rparr>"
    from Cons.prems None ap
    have run: "applyTransactions K ?s1 txns (ap @ [txn]) (ds @ td_OutputDiffs td) (tds @ [td])
            (fold (\<lambda>fee acc. uint64 (acc + fee)) (MinerFees txn) sub)
          = (s', ap @ nap, ds', tds', sub', err)" by simp
    from applyTransactions_acc [OF run] obtain nap' where
      "ap @ nap = (ap @ [txn]) @ nap'"
      by (elim exE conjE) (rule that, assumption)
    then have nap: "nap = txn # nap'" by simp
    from run nap
    have run': "applyTransactions K ?s1 txns (ap @ [txn]) (ds @ td_OutputDiffs td) (tds @ [td])
            (fold (\<lambda>fee acc. uint64 (acc + fee)) (MinerFees txn) sub)
          = (s', (ap @ [txn]) @ nap', ds', tds', sub', err)" by simp
    have ih: "\<And>acc. fst (invertTransactions K s' (rev nap') acc) = ?s1"
      by (rule Cons.IH [OF run'])
    obtain u2 c2 d2 where inv: "invertTransaction K u c txn = (u2, c2, d2)"
      by (cases "invertTransaction K u c txn") auto
    from txn_inverseD [OF assms None ap inv]
    have restored: "u2 = unspentOutputs s" "c2 = openContracts s" by simp_all
    obtain sa acca where r: "invertTransactions K s' (rev nap') acc = (sa, acca)"
      by (cases "invertTransactions K s' (rev nap') acc") auto
    with ih [of acc] have sa: "sa = ?s1" by simp
    show ?thesis
      using r sa inv restored by (simp add: nap invertTransactions_append)
  qed
qed

lemma ex_txn_inverse: "txn_inverse exEnv"
  by (auto simp: txn_inverse_def exEnv_def)

text \<open>
  Claim C3, as the code has it. When the transaction loop of \<open>integrateBlock\<close> stops at
  a transaction that \<open>ValidTransaction\<close> rejects, \<open>integrateBlock\<close> inverts the
  transactions applied so far in reverse order of application and returns the error of
  the failing transaction. The output diffs it returns are those accumulated from the
  applied transactions; they are not discarded, and the block diff keeps their
  transaction diffs. When \<open>invertTransaction\<close> exactly undoes \<open>applyTransaction\<close>, the
  state returned is the state before the call, so the unspent outputs, the contract state,
  \<open>currentBlockID\<close> and \<open>currentPath\<close> are unchanged.
\<close>

theorem integrateBlock_failure:
  assumes inv: "txn_inverse K"
    and fail: "applyTransactions K s (Transactions b) [] [] (TransactionDiffs bd0) 0
                 = (s1, applied, ds, tds, sub, Some e)"
  shows "integrateBlock K s b bd0 =
           Inr (fst (invertTransactions K s1 (rev applied) []),
                bd0\<lparr>CatalystBlock := Block_ID K b, TransactionDiffs := tds\<rparr>, ds, Some e)
         \<and> fst (invertTransactions K s1 (rev applied) []) = s
         \<and> (\<exists>t post ntds. Transactions b = applied @ t # post
               \<and> ValidTransaction K (unspentOutputs s1) (openContracts s1) t = Some e
               \<and> tds = TransactionDiffs bd0 @ ntds \<and> length ntds = length applied
               \<and> ds = concat (map td_OutputDiffs ntds))"
proof -
  have a: "integrateBlock K s b bd0 =
           Inr (fst (invertTransactions K s1 (rev applied) []),
                bd0\<lparr>CatalystBlock := Block_ID K b, TransactionDiffs := tds\<rparr>, ds, Some e)"
    using fail by (simp add: integrateBlock_def Let_def)
  from fail have fail': "applyTransactions K s (Transactions b) [] [] (TransactionDiffs bd0) 0
                 = (s1, [] @ applied, ds, tds, sub, Some e)" by simp
  have b: "fst (invertTransactions K s1 (rev applied) []) = s"
    by (rule applyTransactions_inverted [OF inv fail'])
  from applyTransactions_acc [OF fail]
  have c: "\<exists>t post ntds. Transactions b = applied @ t # post
               \<and> ValidTransaction K (unspentOutputs s1) (openContracts s1) t = Some e
               \<and> tds = TransactionDiffs bd0 @ ntds \<and> length ntds = length applied
               \<and> ds = concat (map td_OutputDiffs ntds)"
    by auto
  show ?thesis using a b c by simp
qed

theorem integrateBlock_failure_witness:
  "txn_inverse exEnv
   \<and> applyTransactions exEnv exStateC (Transactions exBlockC) [] []
        (TransactionDiffs zeroBlockDiff) 0
      = (exStateC\<lparr>unspentOutputs := [50 \<mapsto> exOutput, 1002 \<mapsto> exSubsidy, 70 \<mapsto> exOutput]\<rparr>,
         [\<lparr>MinerFees = [2], TxnBody = 70\<rparr>],
         [\<lparr>New = True, ID = 70, Output = exOutput\<rparr>], TransactionDiffs exDiffC, 2,
         Some (ErrorString ''invalid transaction''))
   \<and> integrateBlock exEnv exStateC exBlockC zeroBlockDiff =
       Inr (exStateC, exDiffC, [\<lparr>New = True, ID = 70, Output = exOutput\<rparr>],
            Some (ErrorString ''invalid transaction''))"
proof -
  have h: "applyTransactions exEnv exStateC (Transactions exBlockC) [] []
        (TransactionDiffs zeroBlockDiff) 0
      = (exStateC\<lparr>unspentOutputs := [50 \<mapsto> exOutput, 1002 \<mapsto> exSubsidy, 70 \<mapsto> exOutput]\<rparr>,
         [\<lparr>MinerFees = [2], TxnBody = 70\<rparr>],
         [\<lparr>New = True, ID = 70, Output = exOutput\<rparr>], TransactionDiffs exDiffC, 2,
         Some (ErrorString ''invalid transaction''))"
    by (simp add: ev)
  from integrateBlock_failure [OF ex_txn_inverse h] h ex_txn_inverse show ?thesis
    by (simp add: ev)
qed

text \<open>
  The claim as stated fails: in the state \<open>exStateC\<close> the block \<open>C\<close>, whose first
  transaction is valid and whose second is not, makes \<open>integrateBlock\<close> return the error
  together with the output diff of the first transaction.
\<close>

theorem integrateBlock_failure_counterexample:
  "integrateBlock exEnv exStateC exBlockC zeroBlockDiff =
     Inr (exStateC, exDiffC, [\<lparr>New = True, ID = 70, Output = exOutput\<rparr>],
          Some (ErrorString ''invalid transaction''))
   \<and> [\<lparr>New = True, ID = 70, Output = exOutput\<rparr>] \<noteq> []"
  by (simp add: ev)

section \<open>The diffs of a successful integration\<close>



section \<open>The error of a failed switch\<close>

lemma ex_replay_C:
  "integrateBlock exEnv exStateR exBlockC zeroBlockDiff =
     Inr (exStateR, exDiffC, [\<lparr>New = True, ID = 70, Output = exOutput\<rparr>],
          Some (ErrorString ''invalid transaction''))"
  by (simp add: ev)

lemma ex_heavier_C: "heavierFork exStateC exNodeC = Inr True"
  by (simp add: ev)

lemma forkBlockchain_err:
  "forkBlockchain K s na = Some (Inr (s', rewoundBlocks, appliedBlocks, outputDiffs, err))
     \<Longrightarrow> err = None"
  by (auto simp: forkBlockchain_def Let_def split: sum.splits option.splits prod.splits)

text \<open>
  Claim C2 on the code. In the state \<open>exStateB\<close> (tip \<open>A\<close>), \<open>AcceptBlock\<close> of the block
  \<open>C\<close> adds \<open>C\<close> to the tree, \<open>heavierFork\<close> holds for it, and the replay of \<open>C\<close> in
  \<open>forkBlockchain\<close> fails with the error of its invalid transaction. The node of \<open>C\<close> is
  invalidated, but \<open>AcceptBlock\<close> returns a nil error.
\<close>

theorem AcceptBlock_failed_reorg_error:
  "addBlockToTree exEnv exStateB 2 exBlockC = Inr (exStateC, 3)
   \<and> heavierFork exStateC exNodeC = Inr True
   \<and> integrateBlock exEnv exStateR exBlockC zeroBlockDiff =
       Inr (exStateR, exDiffC, [\<lparr>New = True, ID = 70, Output = exOutput\<rparr>],
            Some (ErrorString ''invalid transaction''))
   \<and> AcceptBlock exEnv 2300 exStateB exBlockC =
       Some (Inr (exStateF\<lparr>subscriptions := [[zeroConsensusChange]]\<rparr>, [], [], [], None))
   \<and> Block_ID exEnv exBlockC \<in> badBlocks exStateF
   \<and> blockMap exStateF (Block_ID exEnv exBlockC) = None"
  using ex_add_C ex_heavier_C ex_replay_C ex_accept_C
  by (simp add: ev)

section \<open>Notifications\<close>

text \<open>
  Claim C8 on the code. In the same call, whose switch to \<open>C\<close> fails and is rolled back,
  the subscriber of \<open>exStateB\<close>, which had received nothing, receives the empty
  \<open>ConsensusChange\<close> that \<open>AcceptBlock\<close> publishes before it returns.
\<close>

theorem AcceptBlock_failed_reorg_notification:
  "subscriptions exStateB = [[]]
   \<and> AcceptBlock exEnv 2300 exStateB exBlockC =
       Some (Inr (exStateF\<lparr>subscriptions := [[zeroConsensusChange]]\<rparr>, [], [], [], None))
   \<and> subscriptions (exStateF\<lparr>subscriptions := [[zeroConsensusChange]]\<rparr>)
       = [[\<lparr>InvertedBlocks = [], AppliedBlocks = []\<rparr>]]"
  using ex_accept_C
  by (simp add: ev)


section \<open>What the subscribers receive\<close>








lemma ex_accept_D:
  "\<exists>s'. AcceptBlock exEnv 2300 exStateB exBlockD =
     Some (Inr (s', [exBlockA], [exBlockB, exBlockD],
       [\<lparr>New = False, ID = 1002, Output = exSubsidy\<rparr>,
        \<lparr>New = False, ID = 50, Output = exOutput\<rparr>,
        \<lparr>New = True, ID = 60, Output = exOutput\<rparr>,
        \<lparr>New = True, ID = 1003, Output = exSubsidy\<rparr>,
        \<lparr>New = True, ID = 70, Output = exOutput\<rparr>,
        \<lparr>New = True, ID = 1005, Output = exSubsidy\<rparr>], None))
    \<and> subscriptions s' =
        [[\<lparr>InvertedBlocks = [exDiff 2 50], AppliedBlocks = [exDiff 3 60, exDiff 5 70]\<rparr>,
          zeroConsensusChange]]"
  by (simp add: ev numeral_3_eq_3 [symmetric])

section \<open>Atomicity of a failed switch\<close>

text \<open>States that differ in the consensus fields only.\<close>

lemma withCons_self: "sameCons t s \<Longrightarrow> withCons t s = t"
  by (simp add: withCons_def sameCons_def)

lemma sameCons_withCons: "sameCons (withCons t s) s"
  by (simp add: withCons_def sameCons_def)

lemma withCons_withCons: "withCons (withCons t s) r = withCons t r"
  by (simp add: withCons_def)

lemma lookupNode_tree:
  "blockMap t = blockMap s \<Longrightarrow> nodes t = nodes s \<Longrightarrow> lookupNode t bid = lookupNode s bid"
  by (simp add: lookupNode_def nodeAt_def split: option.splits)

lemma nodeView_tree:
  "blockMap t = blockMap s \<Longrightarrow> nodes t = nodes s \<Longrightarrow> nodeView t bid = nodeView s bid"
  using lookupNode_tree [of t s bid] by (simp add: nodeView_def)

lemma nodeView_withCons: "nodeView (withCons t s) bid = nodeView t bid"
  by (rule nodeView_tree) (simp_all add: withCons_def)

lemma applyTransactions_transfer:
  "unspentOutputs s = unspentOutputs t \<Longrightarrow> openContracts s = openContracts t \<Longrightarrow>
   applyTransactions K s txns ap ds tds sub = (s1, r) \<Longrightarrow>
   applyTransactions K t txns ap ds tds sub =
     (t\<lparr>unspentOutputs := unspentOutputs s1, openContracts := openContracts s1\<rparr>, r)"
proof (induction txns arbitrary: s t ap ds tds sub)
  case Nil
  then show ?case by auto
next
  case (Cons txn txns)
  show ?case
  proof (cases "ValidTransaction K (unspentOutputs s) (openContracts s) txn")
    case (Some e)
    with Cons.prems show ?thesis by auto
  next
    case None
    obtain u c td where
      ap: "applyTransaction K (unspentOutputs s) (openContracts s) txn = (u, c, td)"
      by (cases "applyTransaction K (unspentOutputs s) (openContracts s) txn") auto
    from Cons.prems(3) None ap
    have run: "applyTransactions K (s\<lparr>unspentOutputs := u, openContracts := c\<rparr>) txns
            (ap @ [txn]) (ds @ td_OutputDiffs td) (tds @ [td])
            (fold (\<lambda>fee acc. uint64 (acc + fee)) (MinerFees txn) sub) = (s1, r)"
      by simp
    have "applyTransactions K (t\<lparr>unspentOutputs := u, openContracts := c\<rparr>) txns (ap @ [txn])
            (ds @ td_OutputDiffs td) (tds @ [td])
            (fold (\<lambda>fee acc. uint64 (acc + fee)) (MinerFees txn) sub) =
          (t\<lparr>unspentOutputs := u, openContracts := c\<rparr>
              \<lparr>unspentOutputs := unspentOutputs s1, openContracts := openContracts s1\<rparr>, r)"
      by (rule Cons.IH [OF _ _ run]) simp_all
    moreover have "ValidTransaction K (unspentOutputs t) (openContracts t) txn = None"
      using None Cons.prems(1,2) by simp
    moreover have "applyTransaction K (unspentOutputs t) (openContracts t) txn = (u, c, td)"
      using ap Cons.prems(1,2) by simp
    ultimately show ?thesis by simp
  qed
qed

lemma invertTransactions_transfer:
  "unspentOutputs s = unspentOutputs t \<Longrightarrow> openContracts s = openContracts t \<Longrightarrow>
   invertTransactions K s txns acc = (s1, r) \<Longrightarrow>
   invertTransactions K t txns acc =
     (t\<lparr>unspentOutputs := unspentOutputs s1, openContracts := openContracts s1\<rparr>, r)"
proof (induction txns arbitrary: s t acc)
  case Nil
  then show ?case by auto
next
  case (Cons txn txns)
  obtain u c dset where
    iv: "invertTransaction K (unspentOutputs s) (openContracts s) txn = (u, c, dset)"
    by (cases "invertTransaction K (unspentOutputs s) (openContracts s) txn") auto
  from Cons.prems(3) iv
  have run: "invertTransactions K (s\<lparr>unspentOutputs := u, openContracts := c\<rparr>) txns
               (acc @ dset) = (s1, r)" by simp
  have "invertTransactions K (t\<lparr>unspentOutputs := u, openContracts := c\<rparr>) txns (acc @ dset) =
          (t\<lparr>unspentOutputs := u, openContracts := c\<rparr>
              \<lparr>unspentOutputs := unspentOutputs s1, openContracts := openContracts s1\<rparr>, r)"
    by (rule Cons.IH [OF _ _ run]) simp_all
  moreover have "invertTransaction K (unspentOutputs t) (openContracts t) txn = (u, c, dset)"
    using iv Cons.prems(1,2) by simp
  ultimately show ?case by simp
qed


lemma applyTransactions_ledger:
  assumes "applyTransactions K s txns ap ds tds sub = (s', r)"
  obtains ua ca where "s' = s\<lparr>unspentOutputs := ua, openContracts := ca\<rparr>"
proof -
  obtain ap' ds' tds' sub' err where r: "r = (ap', ds', tds', sub', err)"
    by (cases r) auto
  from applyTransactions_acc [OF assms [unfolded r]]
  have "s' = s\<lparr>unspentOutputs := unspentOutputs s', openContracts := openContracts s'\<rparr>"
    by (elim exE conjE)
  then show ?thesis by (rule that)
qed

lemma cm_inverseD:
  assumes "cm_inverse K"
    and "applyContractMaintenance K u c changes = (u1, c1, changes1, ds)"
    and "invertContractMaintenance K u1 c1 = (u2, c2, ds2)"
  shows "u2 = u \<and> c2 = c"
proof -
  note h = assms(1) [unfolded cm_inverse_def, rule_format, of u c changes]
  from h assms(2,3) show ?thesis by simp
qed

lemma integrateBlock_success:
  assumes "integrateBlock K s b zeroBlockDiff = Inr (s1, bd, ds, None)"
  obtains sa ap d1 tds1 sub u c changes dset n where
    "applyTransactions K s (Transactions b) [] [] (TransactionDiffs zeroBlockDiff) 0
       = (sa, ap, d1, tds1, sub, None)"
    "applyContractMaintenance K (unspentOutputs sa) (openContracts sa)
       (BlockChanges zeroBlockDiff) = (u, c, changes, dset)"
    "lookupNode s (Block_ID K b) = Inr n"
    "s1 = s\<lparr>unspentOutputs :=
              u(SubsidyID K b \<mapsto>
                  \<lparr>Value = uint64 (sub + CalculateCoinbase K (Height n)),
                   SpendHash = MinerAddress b\<rparr>),
            openContracts := c,
            currentPath := (currentPath s)(Height n \<mapsto> Block_ID K b),
            currentBlockID := Block_ID K b\<rparr>"
    "bd = zeroBlockDiff\<lparr>CatalystBlock := Block_ID K b, TransactionDiffs := tds1,
            BlockChanges := changes\<lparr>bc_OutputDiffs := bc_OutputDiffs changes @ ds\<rparr>\<rparr>"
    "ds = d1 @ dset @ [\<lparr>New = True, ID = SubsidyID K b,
            Output = \<lparr>Value = uint64 (sub + CalculateCoinbase K (Height n)),
                      SpendHash = MinerAddress b\<rparr>\<rparr>]"
proof -
  obtain sa ap d1 tds1 sub err where
    run: "applyTransactions K s (Transactions b) [] [] (TransactionDiffs zeroBlockDiff) 0
            = (sa, ap, d1, tds1, sub, err)"
    by (cases "applyTransactions K s (Transactions b) [] [] (TransactionDiffs zeroBlockDiff) 0")
       auto
  with assms have err: "err = None"
    by (cases err) (auto simp: integrateBlock_def Let_def)
  from applyTransactions_ledger [OF run] obtain ua ca where
    sa: "sa = s\<lparr>unspentOutputs := ua, openContracts := ca\<rparr>" .
  obtain u c changes dset where
    cm: "applyContractMaintenance K (unspentOutputs sa) (openContracts sa)
           (BlockChanges zeroBlockDiff) = (u, c, changes, dset)"
    by (cases "applyContractMaintenance K (unspentOutputs sa) (openContracts sa)
                 (BlockChanges zeroBlockDiff)") auto
  have lk: "lookupNode (sa\<lparr>unspentOutputs := u, openContracts := c\<rparr>) (Block_ID K b)
              = lookupNode s (Block_ID K b)"
    by (rule lookupNode_tree) (simp_all add: sa)
  from assms run err cm lk obtain n where n: "lookupNode s (Block_ID K b) = Inr n"
    by (auto simp: integrateBlock_def Let_def split: sum.splits)
  have sh: "StateHeight (sa\<lparr>unspentOutputs := u, openContracts := c,
                          currentBlockID := Block_ID K b,
                          currentPath := (currentPath sa)(Height n \<mapsto> Block_ID K b)\<rparr>)
              = Inr (Height n)"
    using n lookupNode_tree [of "sa\<lparr>unspentOutputs := u, openContracts := c,
                          currentBlockID := Block_ID K b,
                          currentPath := (currentPath sa)(Height n \<mapsto> Block_ID K b)\<rparr>" s
                          "Block_ID K b"]
    by (simp add: StateHeight_def currentBlockNode_def sa)
  from assms run err cm lk n sh
  have "s1 = s\<lparr>unspentOutputs :=
              u(SubsidyID K b \<mapsto>
                  \<lparr>Value = uint64 (sub + CalculateCoinbase K (Height n)),
                   SpendHash = MinerAddress b\<rparr>),
            openContracts := c,
            currentPath := (currentPath s)(Height n \<mapsto> Block_ID K b),
            currentBlockID := Block_ID K b\<rparr>"
    "bd = zeroBlockDiff\<lparr>CatalystBlock := Block_ID K b, TransactionDiffs := tds1,
            BlockChanges := changes\<lparr>bc_OutputDiffs := bc_OutputDiffs changes @ ds\<rparr>\<rparr>"
    "ds = d1 @ dset @ [\<lparr>New = True, ID = SubsidyID K b,
            Output = \<lparr>Value = uint64 (sub + CalculateCoinbase K (Height n)),
                      SpendHash = MinerAddress b\<rparr>\<rparr>]"
    by (auto simp: integrateBlock_def Let_def sa)
  with run err cm n show ?thesis by (intro that) simp_all
qed


lemma lookupNode_cons_upd [simp]:
  "lookupNode (s\<lparr>unspentOutputs := u\<rparr>) = lookupNode s"
  "lookupNode (s\<lparr>openContracts := c\<rparr>) = lookupNode s"
  "lookupNode (s\<lparr>currentPath := p\<rparr>) = lookupNode s"
  "lookupNode (s\<lparr>currentBlockID := tip\<rparr>) = lookupNode s"
  by (simp_all add: lookupNode_def nodeAt_def fun_eq_iff split: option.splits)

lemma nodeView_Some:
  "nodeView s bid = Some (b, h) \<longleftrightarrow> (\<exists>n. lookupNode s bid = Inr n \<and> Block n = b \<and> Height n = h)"
  by (auto simp: nodeView_def split: sum.splits)

lemma integrateBlock_transfer:
  assumes ok: "integrateBlock K s b zeroBlockDiff = Inr (s1, bd, ds, None)"
    and sc: "sameCons t s"
    and nv: "nodeView t (Block_ID K b) = nodeView s (Block_ID K b)"
  shows "integrateBlock K t b zeroBlockDiff = Inr (withCons t s1, bd, ds, None)"
proof -
  from integrateBlock_success [OF ok] obtain sa ap d1 tds1 sub u c changes dset n where
    run: "applyTransactions K s (Transactions b) [] [] (TransactionDiffs zeroBlockDiff) 0
            = (sa, ap, d1, tds1, sub, None)"
    and cm: "applyContractMaintenance K (unspentOutputs sa) (openContracts sa)
               (BlockChanges zeroBlockDiff) = (u, c, changes, dset)"
    and n: "lookupNode s (Block_ID K b) = Inr n"
    and s1: "s1 = s\<lparr>unspentOutputs :=
              u(SubsidyID K b \<mapsto>
                  \<lparr>Value = uint64 (sub + CalculateCoinbase K (Height n)),
                   SpendHash = MinerAddress b\<rparr>),
            openContracts := c,
            currentPath := (currentPath s)(Height n \<mapsto> Block_ID K b),
            currentBlockID := Block_ID K b\<rparr>"
    and bdds: "bd = zeroBlockDiff\<lparr>CatalystBlock := Block_ID K b, TransactionDiffs := tds1,
            BlockChanges := changes\<lparr>bc_OutputDiffs := bc_OutputDiffs changes @ ds\<rparr>\<rparr>"
      "ds = d1 @ dset @ [\<lparr>New = True, ID = SubsidyID K b,
            Output = \<lparr>Value = uint64 (sub + CalculateCoinbase K (Height n)),
                      SpendHash = MinerAddress b\<rparr>\<rparr>]" .
  from sc have eqs: "unspentOutputs s = unspentOutputs t" "openContracts s = openContracts t"
    "currentPath t = currentPath s"
    by (simp_all add: sameCons_def)
  have trun: "applyTransactions K t (Transactions b) [] [] (TransactionDiffs zeroBlockDiff) 0
            = (t\<lparr>unspentOutputs := unspentOutputs sa, openContracts := openContracts sa\<rparr>,
               ap, d1, tds1, sub, None)"
    by (rule applyTransactions_transfer [OF eqs(1,2) run])
  from nv n obtain n' where n': "lookupNode t (Block_ID K b) = Inr n'" "Height n' = Height n"
    by (auto simp: nodeView_def split: sum.splits)
  show ?thesis
    using trun cm n' eqs
    by (simp add: integrateBlock_def Let_def StateHeight_def currentBlockNode_def
        withCons_def s1 bdds)
qed

lemma invertRecentBlock_after_integrate:
  assumes ti: "txn_inverse K" and ci: "cm_inverse K"
    and rv: "reversible K s b"
    and ok: "integrateBlock K s b zeroBlockDiff = Inr (s1, bd, ds, None)"
    and sc: "sameCons t s1"
    and nv: "nodeView t (Block_ID K b) = nodeView s (Block_ID K b)"
  shows "\<exists>ds'. invertRecentBlock K t = Inr (withCons t s, ds')"
proof -
  from integrateBlock_success [OF ok] obtain sa ap d1 tds1 sub u c changes dset n where
    run: "applyTransactions K s (Transactions b) [] [] (TransactionDiffs zeroBlockDiff) 0
            = (sa, ap, d1, tds1, sub, None)"
    and cm: "applyContractMaintenance K (unspentOutputs sa) (openContracts sa)
               (BlockChanges zeroBlockDiff) = (u, c, changes, dset)"
    and n: "lookupNode s (Block_ID K b) = Inr n"
    and s1: "s1 = s\<lparr>unspentOutputs :=
              u(SubsidyID K b \<mapsto>
                  \<lparr>Value = uint64 (sub + CalculateCoinbase K (Height n)),
                   SpendHash = MinerAddress b\<rparr>),
            openContracts := c,
            currentPath := (currentPath s)(Height n \<mapsto> Block_ID K b),
            currentBlockID := Block_ID K b\<rparr>"
    and bdds: "bd = zeroBlockDiff\<lparr>CatalystBlock := Block_ID K b, TransactionDiffs := tds1,
            BlockChanges := changes\<lparr>bc_OutputDiffs := bc_OutputDiffs changes @ ds\<rparr>\<rparr>"
      "ds = d1 @ dset @ [\<lparr>New = True, ID = SubsidyID K b,
            Output = \<lparr>Value = uint64 (sub + CalculateCoinbase K (Height n)),
                      SpendHash = MinerAddress b\<rparr>\<rparr>]" .
  let ?out = "\<lparr>Value = uint64 (sub + CalculateCoinbase K (Height n)),
               SpendHash = MinerAddress b\<rparr>"
  from rv n have bn: "Block n = b" and free: "currentPath s (Height n) = None"
    and par: "ParentBlockID b = currentBlockID s"
    by (simp_all add: reversible_def)
  from rv run cm have fresh: "u (SubsidyID K b) = None"
    by (simp add: reversible_def ledgerBeforeSubsidy_def)
  from sc s1 have t: "unspentOutputs t = u(SubsidyID K b \<mapsto> ?out)" "openContracts t = c"
    "currentPath t = (currentPath s)(Height n \<mapsto> Block_ID K b)"
    "currentBlockID t = Block_ID K b"
    by (simp_all add: sameCons_def)
  from nv n bn obtain n' where
    n': "lookupNode t (Block_ID K b) = Inr n'" "Block n' = b" "Height n' = Height n"
    by (auto simp: nodeView_def split: sum.splits)
  from applyTransactions_acc [OF run] have ap: "ap = Transactions b"
    by auto
  from run ap have run': "applyTransactions K s (Transactions b) [] []
            (TransactionDiffs zeroBlockDiff) 0 = (sa, [] @ Transactions b, d1, tds1, sub, None)"
    by simp
  obtain u2 c2 ds2 where icm: "invertContractMaintenance K u c = (u2, c2, ds2)"
    by (cases "invertContractMaintenance K u c") auto
  from cm_inverseD [OF ci cm icm] have back2: "u2 = unspentOutputs sa" "c2 = openContracts sa"
    by simp_all
  let ?acc = "[\<lparr>New = False, ID = SubsidyID K b, Output = ?out\<rparr>] @ ds2"
  obtain sx rx where ivs: "invertTransactions K sa (rev (Transactions b)) ?acc = (sx, rx)"
    by (cases "invertTransactions K sa (rev (Transactions b)) ?acc") auto
  from applyTransactions_inverted [OF ti run', of ?acc] ivs have sx: "sx = s" by simp
  let ?t2 = "t\<lparr>unspentOutputs := u2, openContracts := c2\<rparr>"
  have ivt: "invertTransactions K ?t2 (rev (Transactions b)) ?acc =
               (?t2\<lparr>unspentOutputs := unspentOutputs s, openContracts := openContracts s\<rparr>, rx)"
  proof -
    have e1: "unspentOutputs sa = unspentOutputs ?t2" using back2 by simp
    have e2: "openContracts sa = openContracts ?t2" using back2 by simp
    from invertTransactions_transfer [OF e1 e2 ivs] show ?thesis
      unfolding sx .
  qed
  have upd: "(u(SubsidyID K b \<mapsto> ?out))(SubsidyID K b := None) = u"
    using fresh by (simp add: fun_upd_idem)
  have path: "((currentPath s)(Height n \<mapsto> Block_ID K b))(Height n := None) = currentPath s"
    using free by (simp add: fun_upd_idem)
  show ?thesis
    using t n' icm ivt upd path par
    by (simp add: invertRecentBlock_def CurrentBlock_def currentBlockNode_def StateOutput_def
        StateHeight_def Let_def withCons_def)
qed


lemma invalidated_empty: "invalidated s {} = s"
  by (simp add: invalidated_def)

lemma invalidated_invalidated: "invalidated (invalidated s D1) D2 = invalidated s (D1 \<union> D2)"
  by (auto simp: invalidated_def fun_eq_iff Un_assoc)

lemma invalidated_finish:
  "s\<lparr>blockMap := (blockMap s)(i := None), badBlocks := insert i (badBlocks s)\<rparr>
     = invalidated s {i}"
  by (auto simp: invalidated_def fun_eq_iff)

lemma nodes_invalidated [simp]: "nodes (invalidated s D) = nodes s"
  by (simp add: invalidated_def)

lemma idsOf_append: "idsOf K ns (xs @ ys) = idsOf K ns xs \<union> idsOf K ns ys"
  by (auto simp: idsOf_def)

lemma idsOf_Nil: "idsOf K ns [] = {}"
  by (simp add: idsOf_def)

lemma invalidateWork_finish:
  "invalidateWork K s (Finish a # rest) =
     invalidateWork K (invalidated s {Block_ID K (Block (nodes s ! a))}) rest"
  by (subst invalidateWork.simps) (simp add: invalidated_finish)

lemma invalidateWork_visit:
  assumes ho: "heapOrdered ns"
  shows "nodes s = ns \<Longrightarrow> a < length ns \<Longrightarrow> length ns - a \<le> fuel \<Longrightarrow>
     invalidateWork K s (Visit a # rest) =
       invalidateWork K (invalidated s (idsOf K ns (descendants ns fuel a))) rest"
proof (induction fuel arbitrary: a s rest)
  case 0
  then show ?case by simp
next
  case (Suc fuel)
  let ?cs = "Children (ns ! a)"
  have below: "\<forall>c \<in> set ?cs. c < length ns \<and> length ns - c \<le> fuel"
  proof
    fix c
    assume "c \<in> set ?cs"
    with ho Suc.prems(2) have "a < c \<and> c < length ns"
      unfolding heapOrdered_def by blast
    with Suc.prems(3) show "c < length ns \<and> length ns - c \<le> fuel"
      by arith
  qed
  have kids: "set cs \<subseteq> set ?cs \<Longrightarrow> nodes s' = ns \<Longrightarrow>
      invalidateWork K s' (map Visit cs @ rest') =
        invalidateWork K (invalidated s' (idsOf K ns (concat (map (descendants ns fuel) cs))))
          rest'" for cs s' rest'
  proof (induction cs arbitrary: s')
    case Nil
    then show ?case by (simp add: idsOf_Nil invalidated_empty)
  next
    case (Cons c cs)
    from Cons.prems(1) below have c: "c < length ns" "length ns - c \<le> fuel" by auto
    have "invalidateWork K s' (map Visit (c # cs) @ rest') =
            invalidateWork K s' (Visit c # (map Visit cs @ rest'))" by simp
    also have "\<dots> = invalidateWork K (invalidated s' (idsOf K ns (descendants ns fuel c)))
                        (map Visit cs @ rest')"
      by (rule Suc.IH [OF Cons.prems(2) c])
    also have "\<dots> = invalidateWork K
                        (invalidated (invalidated s' (idsOf K ns (descendants ns fuel c)))
                           (idsOf K ns (concat (map (descendants ns fuel) cs)))) rest'"
      using Cons.prems by (intro Cons.IH) simp_all
    finally show ?case
      by (simp add: invalidated_invalidated idsOf_append)
  qed
  have "invalidateWork K s (Visit a # rest) =
          invalidateWork K s (map Visit ?cs @ Finish a # rest)"
    using Suc.prems(1,2) by (subst invalidateWork.simps) simp
  also have "\<dots> = invalidateWork K
                      (invalidated s (idsOf K ns (concat (map (descendants ns fuel) ?cs))))
                      (Finish a # rest)"
    by (rule kids [OF subset_refl Suc.prems(1)])
  also have "\<dots> = invalidateWork K
                      (invalidated
                         (invalidated s (idsOf K ns (concat (map (descendants ns fuel) ?cs))))
                         {Block_ID K (Block (ns ! a))}) rest"
    using Suc.prems(1) by (simp add: invalidateWork_finish)
  finally show ?case
    by (simp add: invalidated_invalidated idsOf_append idsOf_def)
qed

lemma invalidateNode_total:
  assumes "heapOrdered (nodes s)" and "a < length (nodes s)"
  shows "invalidateNode K s a = Some (Inr (invalidated s (subtreeIDs K (nodes s) a)))"
proof -
  have "invalidateWork K s [Visit a] =
          invalidateWork K (invalidated s (idsOf K (nodes s)
            (descendants (nodes s) (length (nodes s)) a))) []"
    by (rule invalidateWork_visit [OF assms(1) refl assms(2)]) simp
  then show ?thesis
    by (simp add: invalidateNode_def subtreeIDs_def invalidateWork.simps [of _ _ "[]"])
qed

lemma heapOrdered_cache:
  "heapOrdered (ns[a := (ns ! a)\<lparr>BlockDiff := bd\<rparr>]) = heapOrdered ns"
proof -
  have "i < length ns \<Longrightarrow>
          Children (ns[a := (ns ! a)\<lparr>BlockDiff := bd\<rparr>] ! i) = Children (ns ! i)" for i
    by (cases "a < length ns") (simp_all add: nth_list_update)
  then show ?thesis
    unfolding heapOrdered_def by simp
qed


lemma integrateBlock_success_state:
  assumes "integrateBlock K s b zeroBlockDiff = Inr (s1, bd, ds, None)"
  obtains u c n sub where
    "lookupNode s (Block_ID K b) = Inr n"
    "s1 = s\<lparr>unspentOutputs :=
              u(SubsidyID K b \<mapsto>
                  \<lparr>Value = uint64 (sub + CalculateCoinbase K (Height n)),
                   SpendHash = MinerAddress b\<rparr>),
            openContracts := c,
            currentPath := (currentPath s)(Height n \<mapsto> Block_ID K b),
            currentBlockID := Block_ID K b\<rparr>"
  by (rule integrateBlock_success [OF assms]) (rule that, assumption+)

lemma chain_snoc:
  "integratedFrom K sb (bs @ [b]) s \<longleftrightarrow>
     (\<exists>sp. integratedFrom K sb bs sp \<and> reversible K sp b
        \<and> (\<exists>bd ds. integrateBlock K sp b zeroBlockDiff = Inr (s, bd, ds, None)))"
proof (induction bs arbitrary: sb)
  case Nil
  show ?case by (auto split: sum.splits)
next
  case (Cons b' bs)
  show ?case
    by (cases "integrateBlock K sb b' zeroBlockDiff") (auto simp: Cons.IH)
qed

lemma integrateBlock_failed_state:
  assumes "txn_inverse K" and "integrateBlock K s b bd0 = Inr (s1, bd, ds, Some e)"
  shows "s1 = s"
proof -
  obtain sa ap d1 tds1 sub err where
    run: "applyTransactions K s (Transactions b) [] [] (TransactionDiffs bd0) 0
            = (sa, ap, d1, tds1, sub, err)"
    by (cases "applyTransactions K s (Transactions b) [] [] (TransactionDiffs bd0) 0") auto
  with assms(2) have err: "err = Some e"
    by (cases err) (auto simp: integrateBlock_def Let_def split: sum.splits prod.splits)
  from run err have run': "applyTransactions K s (Transactions b) [] []
      (TransactionDiffs bd0) 0 = (sa, [] @ ap, d1, tds1, sub, Some e)" by simp
  from applyTransactions_inverted [OF assms(1) run', of "[]"] assms(2) run err
  show ?thesis by (simp add: integrateBlock_def Let_def)
qed

lemma rewind_chain:
  assumes ti: "txn_inverse K" and ci: "cm_inverse K"
  shows "integratedFrom K sb bs s \<Longrightarrow> currentBlockID sb = target \<Longrightarrow>
     \<forall>b \<in> set bs. Block_ID K b \<noteq> target \<Longrightarrow>
     \<exists>ivb od'. rewindLoop K target s rw ivb0 od0 = Some (Inr (sb, rw @ rev bs, ivb, od'))"
proof (induction bs arbitrary: s rw ivb0 od0 rule: rev_induct)
  case Nil
  then show ?case by (simp add: rewindLoop.simps [of K target sb])
next
  case (snoc b bs)
  from snoc.prems(1) obtain sp bd ds where
    sp: "integratedFrom K sb bs sp" and rv: "reversible K sp b"
    and ok: "integrateBlock K sp b zeroBlockDiff = Inr (s, bd, ds, None)"
    unfolding chain_snoc by blast
  obtain u c n sub where
    n: "lookupNode sp (Block_ID K b) = Inr n"
    and s: "s = sp\<lparr>unspentOutputs :=
              u(SubsidyID K b \<mapsto>
                  \<lparr>Value = uint64 (sub + CalculateCoinbase K (Height n)),
                   SpendHash = MinerAddress b\<rparr>),
            openContracts := c,
            currentPath := (currentPath sp)(Height n \<mapsto> Block_ID K b),
            currentBlockID := Block_ID K b\<rparr>"
    by (rule integrateBlock_success_state [OF ok])
  from rv n have bn: "Block n = b" by (simp add: reversible_def)
  have tip: "currentBlockID s = Block_ID K b" by (simp add: s)
  with snoc.prems(3) have ne: "currentBlockID s \<noteq> target" by simp
  have lk: "lookupNode s (Block_ID K b) = Inr n" using n by (simp add: s)
  have nv: "nodeView s (Block_ID K b) = nodeView sp (Block_ID K b)"
    using n lk by (simp add: nodeView_def)
  have sc: "sameCons s s" by (simp add: sameCons_def)
  from invertRecentBlock_after_integrate [OF ti ci rv ok sc nv] obtain ds' where
    iv: "invertRecentBlock K s = Inr (withCons s sp, ds')" by blast
  have back1: "withCons s sp = sp" by (simp add: withCons_def s)
  from snoc.prems(3) have rest: "\<forall>b \<in> set bs. Block_ID K b \<noteq> target" by simp
  from snoc.IH [OF sp snoc.prems(2) rest, of "rw @ [b]" "ivb0 @ [BlockDiff n]" "od0 @ ds'"]
  obtain ivb od' where
    "rewindLoop K target sp (rw @ [b]) (ivb0 @ [BlockDiff n]) (od0 @ ds')
       = Some (Inr (sb, (rw @ [b]) @ rev bs, ivb, od'))" by blast
  with ne tip lk bn iv back1 show ?case
    by (subst rewindLoop.simps)
       (simp add: CurrentBlock_def currentBlockNode_def)
qed

lemma nodeView_integrate:
  assumes "integrateBlock K s b zeroBlockDiff = Inr (s1, bd, ds, None)"
  shows "nodeView s1 bid = nodeView s bid"
proof -
  obtain u c n sub where
    "lookupNode s (Block_ID K b) = Inr n" and
    "s1 = s\<lparr>unspentOutputs :=
              u(SubsidyID K b \<mapsto>
                  \<lparr>Value = uint64 (sub + CalculateCoinbase K (Height n)),
                   SpendHash = MinerAddress b\<rparr>),
            openContracts := c,
            currentPath := (currentPath s)(Height n \<mapsto> Block_ID K b),
            currentBlockID := Block_ID K b\<rparr>"
    by (rule integrateBlock_success_state [OF assms])
  then show ?thesis by (simp add: nodeView_def)
qed

lemma reintegrate_chain:
  "integratedFrom K sb bs s \<Longrightarrow> sameCons v sb \<Longrightarrow>
   \<forall>b \<in> set bs. nodeView v (Block_ID K b) = nodeView sb (Block_ID K b) \<Longrightarrow>
   reintegrateBlocks K v bs = Inr (withCons v s)"
proof (induction bs arbitrary: sb v)
  case Nil
  then show ?case by (simp add: withCons_self)
next
  case (Cons b bs)
  from Cons.prems(1) obtain s1 bd ds where
    ok: "integrateBlock K sb b zeroBlockDiff = Inr (s1, bd, ds, None)"
    and ch: "integratedFrom K s1 bs s"
    by (auto split: sum.splits)
  from Cons.prems(3) have nv: "nodeView v (Block_ID K b) = nodeView sb (Block_ID K b)"
    by simp
  have tr: "integrateBlock K v b zeroBlockDiff = Inr (withCons v s1, bd, ds, None)"
    by (rule integrateBlock_transfer [OF ok Cons.prems(2) nv])
  have "reintegrateBlocks K (withCons v s1) bs = Inr (withCons (withCons v s1) s)"
  proof (rule Cons.IH [OF ch sameCons_withCons])
    show "\<forall>b \<in> set bs. nodeView (withCons v s1) (Block_ID K b) = nodeView s1 (Block_ID K b)"
      using Cons.prems(3) by (simp add: nodeView_withCons nodeView_integrate [OF ok])
  qed
  with tr show ?case by (simp add: withCons_withCons)
qed

lemma chain_base:
  "integratedFrom K sb bs s \<Longrightarrow> withCons s sb = sb"
proof (induction bs arbitrary: sb)
  case Nil
  then show ?case by (simp add: withCons_def)
next
  case (Cons b bs)
  from Cons.prems obtain s1 bd ds where
    ok: "integrateBlock K sb b zeroBlockDiff = Inr (s1, bd, ds, None)"
    and ch: "integratedFrom K s1 bs s"
    by (auto split: sum.splits)
  obtain u c n sub where
    "lookupNode sb (Block_ID K b) = Inr n" and
    s1: "s1 = sb\<lparr>unspentOutputs :=
              u(SubsidyID K b \<mapsto>
                  \<lparr>Value = uint64 (sub + CalculateCoinbase K (Height n)),
                   SpendHash = MinerAddress b\<rparr>),
            openContracts := c,
            currentPath := (currentPath sb)(Height n \<mapsto> Block_ID K b),
            currentBlockID := Block_ID K b\<rparr>"
    by (rule integrateBlock_success_state [OF ok])
  have a: "withCons s1 sb = sb" by (simp add: withCons_def s1)
  from Cons.IH [OF ch] have b: "withCons s s1 = s1" .
  have "withCons s sb = withCons (withCons s s1) sb" by (simp add: withCons_withCons)
  with a b show ?case by simp
qed


lemma nodeView_invalidated:
  "bid \<notin> D \<Longrightarrow> nodeView (invalidated s D) bid = nodeView s bid"
  by (simp add: nodeView_def lookupNode_def nodeAt_def invalidated_def
        split: option.splits)

lemma stateHashOf_withCons: "stateHashOf K (withCons v s) = stateHashOf K s"
  by (simp add: stateHashOf_def withCons_def)

lemma nodeView_cache:
  "nodeView (s\<lparr>nodes := (nodes s)[a := (nodes s ! a)\<lparr>BlockDiff := bd\<rparr>]\<rparr>) bid
     = nodeView s bid"
proof (cases "blockMap s bid")
  case None
  then show ?thesis by (simp add: nodeView_def lookupNode_def)
next
  case (Some a')
  then show ?thesis
    by (cases "a' = a") (simp_all add: nodeView_def lookupNode_def nodeAt_def)
qed

lemma cache_fields:
  "Children (ns[a := (ns ! a)\<lparr>BlockDiff := bd\<rparr>] ! i) = Children (ns ! i)"
  "Block (ns[a := (ns ! a)\<lparr>BlockDiff := bd\<rparr>] ! i) = Block (ns ! i)"
proof -
  show "Children (ns[a := (ns ! a)\<lparr>BlockDiff := bd\<rparr>] ! i) = Children (ns ! i)"
    by (cases "a < length ns"; cases "i = a") (simp_all add: list_update_beyond)
  show "Block (ns[a := (ns ! a)\<lparr>BlockDiff := bd\<rparr>] ! i) = Block (ns ! i)"
    by (cases "a < length ns"; cases "i = a") (simp_all add: list_update_beyond)
qed

lemma descendants_cache:
  "descendants (ns[a := (ns ! a)\<lparr>BlockDiff := bd\<rparr>]) fuel i = descendants ns fuel i"
proof (induction fuel arbitrary: i)
  case 0
  show ?case by simp
next
  case (Suc fuel)
  then have "descendants (ns[a := (ns ! a)\<lparr>BlockDiff := bd\<rparr>]) fuel = descendants ns fuel"
    by (intro ext)
  then show ?case by (simp add: cache_fields)
qed

lemma subtreeIDs_cache:
  "subtreeIDs K (ns[a := (ns ! a)\<lparr>BlockDiff := bd\<rparr>]) i = subtreeIDs K ns i"
  by (simp add: subtreeIDs_def idsOf_def descendants_cache cache_fields)

lemma descendants_self: "a \<in> set (descendants ns fuel a)"
  by (cases fuel) simp_all

lemma subtreeIDs_self: "Block_ID K (Block (ns ! a)) \<in> subtreeIDs K ns a"
  by (simp add: subtreeIDs_def idsOf_def descendants_self)

lemma replay_rollback:
  assumes ti: "txn_inverse K" and ci: "cm_inverse K"
  shows "replayFailure K keep r pids = Some a \<Longrightarrow> heapOrdered (nodes r) \<Longrightarrow>
    (\<And>v. sameCons v r \<Longrightarrow> \<forall>bid \<in> set keep. nodeView v bid = nodeView r bid \<Longrightarrow>
        invertBlocks K v n = Inr (withCons v sb)) \<Longrightarrow>
    (\<And>v. sameCons v sb \<Longrightarrow> \<forall>bid \<in> set keep. nodeView v bid = nodeView r bid \<Longrightarrow>
        reintegrateBlocks K v (rev rw) = Inr (withCons v s0)) \<Longrightarrow>
    (DEBUG K \<Longrightarrow> h = stateHashOf K s0) \<Longrightarrow>
    \<exists>N cca'. replayLoop K h rw r pids app cca n od
        = Some (Inr (withCons (invalidated (r\<lparr>nodes := N\<rparr>)
                               (subtreeIDs K (nodes r) a)) s0, [], [], cca', []))
      \<and> a < length (nodes r)"
proof (induction pids arbitrary: keep r app cca n od)
  case Nil
  then show ?case by simp
next
  case (Cons pid pids)
  note rf = Cons.prems(1) and ho = Cons.prems(2) and undo = Cons.prems(3)
    and redo = Cons.prems(4) and hash = Cons.prems(5)
  from rf obtain a0 where bm: "blockMap r pid = Some a0"
    by (cases "blockMap r pid") auto
  from rf bm have lt: "a0 < length (nodes r)"
    by (cases "a0 < length (nodes r)") auto
  define b where "b = Block (nodes r ! a0)"
  from rf bm lt obtain s1 bd ds err where
    ib: "integrateBlock K r b zeroBlockDiff = Inr (s1, bd, ds, err)"
    by (cases "integrateBlock K r b zeroBlockDiff") (auto simp: b_def)
  have lk: "lookupNode r pid = Inr (nodes r ! a0)"
    using bm lt by (simp add: lookupNode_def nodeAt_def)
  show ?case
  proof (cases err)
    case (Some e)
    from rf bm lt ib Some
    have dj: "subtreeIDs K (nodes r) a0 \<inter> set keep = {}" and a: "a = a0"
      by (auto simp: b_def split: if_splits)
    from ib Some have s1: "s1 = r"
      using integrateBlock_failed_state [OF ti, of r b zeroBlockDiff s1 bd ds e] by simp
    define v where "v = invalidated r (subtreeIDs K (nodes r) a0)"
    have ivn: "invalidateNode K r a0 = Some (Inr v)"
      unfolding v_def by (rule invalidateNode_total [OF ho lt])
    have scv: "sameCons v r" by (simp add: v_def sameCons_def invalidated_def)
    have nvv: "\<forall>bid \<in> set keep. nodeView v bid = nodeView r bid"
    proof
      fix bid assume "bid \<in> set keep"
      with dj have "bid \<notin> subtreeIDs K (nodes r) a0" by blast
      then show "nodeView v bid = nodeView r bid"
        unfolding v_def by (rule nodeView_invalidated)
    qed
    have u1: "invertBlocks K v n = Inr (withCons v sb)" by (rule undo [OF scv nvv])
    have nv2: "\<forall>bid \<in> set keep. nodeView (withCons v sb) bid = nodeView r bid"
      using nvv by (simp add: nodeView_withCons)
    have r1: "reintegrateBlocks K (withCons v sb) (rev rw) = Inr (withCons v s0)"
      using redo [OF sameCons_withCons nv2] by (simp add: withCons_withCons)
    have hh: "\<not> (DEBUG K \<and> h \<noteq> stateHashOf K (withCons v s0))"
      using hash by (simp add: stateHashOf_withCons)
    have rb: "rollback K r pid n rw h = Some (Inr (withCons v s0))"
      using bm ivn u1 r1 hh by (simp add: rollback_def)
    have run: "replayLoop K h rw r (pid # pids) app cca n od
        = Some (Inr (withCons v s0, [], [], cca, []))"
      using lk ib Some s1 rb by (simp add: b_def)
    have "r\<lparr>nodes := nodes r\<rparr> = r" by simp
    with run a lt have "replayLoop K h rw r (pid # pids) app cca n od
        = Some (Inr (withCons (invalidated (r\<lparr>nodes := nodes r\<rparr>)
                               (subtreeIDs K (nodes r) a)) s0, [], [], cca, []))
      \<and> a < length (nodes r)"
      by (simp add: v_def)
    then show ?thesis by blast
  next
    case None
    define r1 where
      "r1 = s1\<lparr>nodes := (nodes s1)[a0 := (nodes s1 ! a0)\<lparr>BlockDiff := bd\<rparr>]\<rparr>"
    from ib None have ok: "integrateBlock K r b zeroBlockDiff = Inr (s1, bd, ds, None)"
      by simp
    from rf bm lt ok have rv: "reversible K r b"
      by (auto simp: b_def split: if_splits)
    from rf bm lt ok rv
    have rf': "replayFailure K (Block_ID K b # keep) r1 pids = Some a"
      by (simp add: b_def r1_def)
    obtain u c n' sub where
      "lookupNode r (Block_ID K b) = Inr n'" and
      s1: "s1 = r\<lparr>unspentOutputs :=
              u(SubsidyID K b \<mapsto>
                  \<lparr>Value = uint64 (sub + CalculateCoinbase K (Height n')),
                   SpendHash = MinerAddress b\<rparr>),
            openContracts := c,
            currentPath := (currentPath r)(Height n' \<mapsto> Block_ID K b),
            currentBlockID := Block_ID K b\<rparr>"
      by (rule integrateBlock_success_state [OF ok])
    have tree: "nodes s1 = nodes r" "blockMap s1 = blockMap r" by (simp_all add: s1)
    have ho1: "heapOrdered (nodes r1)"
      using ho by (simp add: r1_def tree heapOrdered_cache)
    have nvr1: "nodeView r1 bid = nodeView r bid" for bid
      unfolding r1_def by (simp only: nodeView_cache nodeView_integrate [OF ok])
    have sc1: "sameCons r1 s1" by (simp add: r1_def sameCons_def)
    have undo': "invertBlocks K v (n + 1) = Inr (withCons v sb)"
      if sv: "sameCons v r1"
        and nv: "\<forall>bid \<in> set (Block_ID K b # keep). nodeView v bid = nodeView r1 bid"
      for v
    proof -
      from sv sc1 have scs: "sameCons v s1" by (simp add: sameCons_def)
      from nv have nvb: "nodeView v (Block_ID K b) = nodeView r (Block_ID K b)"
        by (simp add: nvr1)
      from invertRecentBlock_after_integrate [OF ti ci rv ok scs nvb] obtain ds' where
        iv: "invertRecentBlock K v = Inr (withCons v r, ds')" by blast
      have nvk: "\<forall>bid \<in> set keep. nodeView (withCons v r) bid = nodeView r bid"
        using nv by (simp add: nodeView_withCons nvr1)
      have "invertBlocks K (withCons v r) n = Inr (withCons (withCons v r) sb)"
        by (rule undo [OF sameCons_withCons nvk])
      with iv show ?thesis by (simp add: withCons_withCons)
    qed
    have redo': "reintegrateBlocks K v (rev rw) = Inr (withCons v s0)"
      if sv: "sameCons v sb"
        and nv: "\<forall>bid \<in> set (Block_ID K b # keep). nodeView v bid = nodeView r1 bid"
      for v
    proof -
      have nvk: "\<forall>bid \<in> set keep. nodeView v bid = nodeView r bid"
        using nv by (simp add: nvr1)
      show ?thesis by (rule redo [OF sv nvk])
    qed
    from Cons.IH [OF rf' ho1 undo' redo' hash, of "app @ [b]" "cca @ [bd]" "od @ ds"]
    obtain N cca' where
      run: "replayLoop K h rw r1 pids (app @ [b]) (cca @ [bd]) (n + 1) (od @ ds)
          = Some (Inr (withCons (invalidated (r1\<lparr>nodes := N\<rparr>)
                                 (subtreeIDs K (nodes r1) a)) s0, [], [], cca', []))"
      and aN: "a < length (nodes r1)"
      by blast
    have ids: "subtreeIDs K (nodes r1) a = subtreeIDs K (nodes r) a"
      by (simp add: r1_def tree subtreeIDs_cache)
    have len: "length (nodes r1) = length (nodes r)" by (simp add: r1_def tree)
    have same: "withCons (invalidated (r1\<lparr>nodes := N\<rparr>) D) s0
        = withCons (invalidated (r\<lparr>nodes := N\<rparr>) D) s0" for D
      by (simp add: r1_def s1 withCons_def invalidated_def cong: if_cong)
    have step: "replayLoop K h rw r (pid # pids) app cca n od
        = replayLoop K h rw r1 pids (app @ [b]) (cca @ [bd]) (n + 1) (od @ ds)"
      using lk ok bm lt tree by (simp add: b_def r1_def)
    have fin: "replayLoop K h rw r (pid # pids) app cca n od
        = Some (Inr (withCons (invalidated (r\<lparr>nodes := N\<rparr>)
                               (subtreeIDs K (nodes r) a)) s0, [], [], cca', []))"
      unfolding step run same ids ..
    from aN len have "a < length (nodes r)" by simp
    with fin show ?thesis by blast
  qed
qed


text \<open>
  Claim C1. Let the state \<open>s\<close> be the state \<open>sb\<close>, whose tip is the common ancestor, after
  the integration of the blocks \<open>rewound\<close>, in a tree whose children lie above their
  parents, and let the replay of the parent history of the new node stop at the block
  at address \<open>a\<close>, which is rejected. When \<open>InvertTransaction\<close> and
  \<open>invertContractMaintenance\<close> undo their counterparts, \<open>forkBlockchain\<close> returns, with
  empty lists of rewound blocks, applied blocks and output diffs; the unspent outputs, the
  contract state, the canonical path, the tip and with them the state hash are those of
  \<open>s\<close>; no subscriber is notified; and the block ids of the subtree of the rejected
  block, its own among them, are removed from \<open>blockMap\<close> and added to \<open>badBlocks\<close>.
\<close>

theorem forkBlockchain_atomic:
  assumes ti: "txn_inverse K" and ci: "cm_inverse K"
    and ho: "heapOrdered (nodes s)"
    and na: "nodeAt s na = Inr newNode"
    and cp: "commonParent K s newNode [] = Some (Inr (parentHistory, ancestor))"
    and ch: "integratedFrom K sb rewound s"
    and tip: "currentBlockID sb = Block_ID K (Block ancestor)"
    and ne: "\<forall>b \<in> set rewound. Block_ID K b \<noteq> Block_ID K (Block ancestor)"
    and rf: "replayFailure K (map (Block_ID K) rewound) sb (rev parentHistory) = Some a"
  shows "\<exists>s'. forkBlockchain K s na = Some (Inr (s', [], [], [], None))
     \<and> unspentOutputs s' = unspentOutputs s \<and> openContracts s' = openContracts s
     \<and> currentPath s' = currentPath s \<and> currentBlockID s' = currentBlockID s
     \<and> stateHashOf K s' = stateHashOf K s
     \<and> subscriptions s' = subscriptions s
     \<and> a < length (nodes s)
     \<and> Block_ID K (Block (nodes s ! a)) \<in> subtreeIDs K (nodes s) a
     \<and> badBlocks s' = badBlocks s \<union> subtreeIDs K (nodes s) a
     \<and> blockMap s'
         = (\<lambda>bid. if bid \<in> subtreeIDs K (nodes s) a then None else blockMap s bid)"
proof -
  define h where "h = (if DEBUG K then stateHashOf K s else 0)"
  from rewind_chain [OF ti ci ch tip ne, of "[]" "[]" "[]"] obtain ivb od' where
    rw: "rewindLoop K (Block_ID K (Block ancestor)) s [] [] []
           = Some (Inr (sb, rev rewound, ivb, od'))"
    by auto
  from chain_base [OF ch] have base: "withCons s sb = sb" .
  have tree: "nodes sb = nodes s" "blockMap sb = blockMap s" "badBlocks sb = badBlocks s"
    "subscriptions sb = subscriptions s"
    using arg_cong [OF base, of nodes] arg_cong [OF base, of blockMap]
      arg_cong [OF base, of badBlocks] arg_cong [OF base, of subscriptions]
    by (simp_all add: withCons_def)
  have ho': "heapOrdered (nodes sb)" using ho by (simp add: tree)
  have undo: "invertBlocks K v 0 = Inr (withCons v sb)"
    if "sameCons v sb"
      and "\<forall>bid \<in> set (map (Block_ID K) rewound). nodeView v bid = nodeView sb bid"
    for v
    using that by (simp add: withCons_self)
  have redo: "reintegrateBlocks K v (rev (rev rewound)) = Inr (withCons v s)"
    if sv: "sameCons v sb"
      and nv: "\<forall>bid \<in> set (map (Block_ID K) rewound). nodeView v bid = nodeView sb bid"
    for v
  proof -
    from nv have "\<forall>b \<in> set rewound. nodeView v (Block_ID K b) = nodeView sb (Block_ID K b)"
      by simp
    from reintegrate_chain [OF ch sv this] show ?thesis by simp
  qed
  have hash: "DEBUG K \<Longrightarrow> h = stateHashOf K s" by (simp add: h_def)
  from replay_rollback [OF ti ci rf ho' undo redo hash, of "[]" "[]" od']
  obtain N cca' where
    rp: "replayLoop K h (rev rewound) sb (rev parentHistory) [] [] 0 od'
        = Some (Inr (withCons (invalidated (sb\<lparr>nodes := N\<rparr>)
                               (subtreeIDs K (nodes sb) a)) s, [], [], cca', []))"
    and aN: "a < length (nodes sb)"
    by blast
  define s2 where
    "s2 = withCons (invalidated (sb\<lparr>nodes := N\<rparr>) (subtreeIDs K (nodes s) a)) s"
  define s' where
    "s' = s2\<lparr>transactionPool :=
               cleanTransactionPool K (unspentOutputs s2) (openContracts s2)
                 (transactionPool s2)\<rparr>"
  have run: "forkBlockchain K s na = Some (Inr (s', [], [], [], None))"
    using na cp rw rp
    by (simp add: forkBlockchain_def Let_def h_def [symmetric] tree s2_def s'_def)
  have fields: "unspentOutputs s' = unspentOutputs s" "openContracts s' = openContracts s"
    "currentPath s' = currentPath s" "currentBlockID s' = currentBlockID s"
    "stateHashOf K s' = stateHashOf K s"
    "subscriptions s' = subscriptions s"
    "badBlocks s' = badBlocks s \<union> subtreeIDs K (nodes s) a"
    "blockMap s'
       = (\<lambda>bid. if bid \<in> subtreeIDs K (nodes s) a then None else blockMap s bid)"
    by (simp_all add: s'_def s2_def withCons_def invalidated_def stateHashOf_def tree
          cong: if_cong)
  from aN have lt: "a < length (nodes s)" by (simp add: tree)
  show ?thesis
    by (rule exI [of _ s'], intro conjI)
       (rule run fields lt subtreeIDs_self)+
qed


text \<open>The failed switch to \<open>C\<close> in the small instance.\<close>

lemma ex_cm_inverse: "cm_inverse exEnv"
  by (simp add: cm_inverse_def exEnv_def)

lemma ex_heapOrdered_C: "heapOrdered (nodes exStateC)"
  by (simp add: heapOrdered_def ex_defs All_less_Suc)

lemma ex_node_C: "nodeAt exStateC 3 = Inr exNodeC"
  by (simp add: ev)

lemma ex_common_C:
  "commonParent exEnv exStateC exNodeC [] = Some (Inr ([4, 3], exNodeG [1, 2]))"
  by (simp add: ev)

lemma ex_reversible_A: "reversible exEnv exStateC0 exBlockA"
  by (simp add: reversible_def ledgerBeforeSubsidy_def ev)

lemma ex_chain_C: "integratedFrom exEnv exStateC0 [exBlockA] exStateC"
  by (simp add: ex_reversible_A ex_integrate_A)

lemma ex_tip_C0: "currentBlockID exStateC0 = Block_ID exEnv (Block (exNodeG [1, 2]))"
  by (simp add: ev)

lemma ex_rewound_C:
  "\<forall>b \<in> set [exBlockA]. Block_ID exEnv b \<noteq> Block_ID exEnv (Block (exNodeG [1, 2]))"
  by (simp add: ev)

lemma ex_replayFailure_C:
  "replayFailure exEnv (map (Block_ID exEnv) [exBlockA]) exStateC0 (rev [4, 3]) = Some 3"
  by (simp add: reversible_def ledgerBeforeSubsidy_def subtreeIDs_def idsOf_def ev)

theorem forkBlockchain_atomic_witness:
  "\<exists>s'. forkBlockchain exEnv exStateC 3 = Some (Inr (s', [], [], [], None))
     \<and> unspentOutputs s' = unspentOutputs exStateC
     \<and> openContracts s' = openContracts exStateC
     \<and> currentPath s' = currentPath exStateC
     \<and> currentBlockID s' = currentBlockID exStateC
     \<and> stateHashOf exEnv s' = stateHashOf exEnv exStateC
     \<and> subscriptions s' = subscriptions exStateC
     \<and> 3 < length (nodes exStateC)
     \<and> Block_ID exEnv (Block (nodes exStateC ! 3)) \<in> subtreeIDs exEnv (nodes exStateC) 3
     \<and> badBlocks s' = badBlocks exStateC \<union> subtreeIDs exEnv (nodes exStateC) 3
     \<and> blockMap s'
         = (\<lambda>bid. if bid \<in> subtreeIDs exEnv (nodes exStateC) 3 then None
                  else blockMap exStateC bid)"
  by (rule forkBlockchain_atomic [OF ex_txn_inverse ex_cm_inverse ex_heapOrdered_C ex_node_C
        ex_common_C ex_chain_C ex_tip_C0 ex_rewound_C ex_replayFailure_C])

section \<open>The notifications of an accepted block\<close>




























end
